theory Spec2Isabelle
  imports Main "HOL-Library.AList"
begin

section \<open>JavaScript values and errors\<close>

text \<open>
  The values the coverage receiver handles come out of \<^verbatim>\<open>JSON.parse\<close>; \<open>Undefined\<close> is added
  for what a property read or \<^verbatim>\<open>fluid.get\<close> gives when a member is absent. Strings are
  character lists; the characters the code tests are all ASCII. Numbers are only tested
  for being zero, so integers stand for them. An object is the list of its members.
\<close>

datatype jsval =
    Undefined
  | Null
  | JBool bool
  | JNum int
  | JStr string
  | JArr "jsval list"
  | JObj "(string \<times> jsval) list"

text \<open>
  Every \<^verbatim>\<open>throw\<close> of the modelled code is a value: \<open>TypeError\<close> for a member read or a method
  call on a value that has none, \<open>SyntaxError\<close> for \<^verbatim>\<open>JSON.parse\<close>, \<open>FluidFail\<close> for what
  \<^verbatim>\<open>fluid.fail\<close> raises, \<open>Failure\<close> for a failure reported by a collaborator (a file system
  operation, a path resolver), with its message, \<open>Reason\<close> for a value used as an error (the
  reason a promise was rejected with).
\<close>

datatype js_error =
    TypeError
  | SyntaxError
  | Failure string
  | Reason jsval
  | FluidFail js_error

text \<open>\<^verbatim>\<open>if (v)\<close>, \<^verbatim>\<open>v ? a : b\<close> and \<^verbatim>\<open>v || d\<close> test this.\<close>

fun truthy :: "jsval \<Rightarrow> bool" where
  "truthy Undefined = False"
| "truthy Null = False"
| "truthy (JBool b) = b"
| "truthy (JNum n) = (n \<noteq> 0)"
| "truthy (JStr s) = (s \<noteq> [])"
| "truthy (JArr xs) = True"
| "truthy (JObj kvs) = True"

text \<open>
  \<^verbatim>\<open>root[key]\<close> for the member names the receiver reads (\<^verbatim>\<open>navigator\<close>, \<^verbatim>\<open>userAgent\<close>,
  \<^verbatim>\<open>document\<close>, \<^verbatim>\<open>URL\<close>, \<^verbatim>\<open>coverage\<close>): none of them is a member of a prototype, so only an
  object can hold one; reading a member of \<^verbatim>\<open>undefined\<close> or \<^verbatim>\<open>null\<close> throws.
\<close>

fun js_member :: "jsval \<Rightarrow> string \<Rightarrow> js_error + jsval" where
  "js_member Undefined k = Inl TypeError"
| "js_member Null k = Inl TypeError"
| "js_member (JObj kvs) k = Inr (case map_of kvs k of Some v \<Rightarrow> v | None \<Rightarrow> Undefined)"
| "js_member v k = Inr Undefined"

text \<open>
  \<^verbatim>\<open>fluid.get(root, "a.b")\<close> (Infusion) walks the path segments; when what it holds is falsy
  and a segment is left, it stops and gives \<^verbatim>\<open>undefined\<close>. It never throws.
\<close>

fun fluid_get :: "jsval \<Rightarrow> string list \<Rightarrow> jsval" where
  "fluid_get root [] = root"
| "fluid_get root (seg # segs) =
     (if \<not> truthy root then Undefined
      else fluid_get (case js_member root seg of Inr v \<Rightarrow> v | Inl e \<Rightarrow> Undefined) segs)"

section \<open>Strings\<close>

definition upper_chars :: string where
  "upper_chars = ''ABCDEFGHIJKLMNOPQRSTUVWXYZ''"

definition lower_chars :: string where
  "lower_chars = ''abcdefghijklmnopqrstuvwxyz''"

definition digit_chars :: string where
  "digit_chars = ''0123456789''"

definition toLowerChar :: "char \<Rightarrow> char" where
  "toLowerChar c = (case map_of (zip upper_chars lower_chars) c of Some l \<Rightarrow> l | None \<Rightarrow> c)"

text \<open>\<^verbatim>\<open>String.prototype.toLowerCase\<close> on ASCII text.\<close>

definition toLowerCase :: "string \<Rightarrow> string" where
  "toLowerCase s = map toLowerChar s"

text \<open>\<^verbatim>\<open>s.indexOf(pat)\<close>: the position of the first occurrence, or \<open>-1\<close>.\<close>

fun index_from :: "string \<Rightarrow> string \<Rightarrow> int \<Rightarrow> int" where
  "index_from pat [] i = (if pat = [] then i else -1)"
| "index_from pat (c # cs) i =
     (if take (length pat) (c # cs) = pat then i else index_from pat cs (i + 1))"

definition indexOf :: "string \<Rightarrow> string \<Rightarrow> int" where
  "indexOf s pat = index_from pat s 0"

text \<open>\<^verbatim>\<open>s.split(sep)\<close> for a one-character separator; the result is never empty.\<close>

fun split :: "char \<Rightarrow> string \<Rightarrow> string list" where
  "split sep [] = [[]]"
| "split sep (c # cs) =
     (if c = sep then [] # split sep cs
      else (case split sep cs of w # ws \<Rightarrow> (c # w) # ws | [] \<Rightarrow> [[c]]))"

text \<open>\<^verbatim>\<open>Array.prototype.pop\<close>: the last element, \<^verbatim>\<open>undefined\<close> from an empty array.\<close>

definition pop :: "'a list \<Rightarrow> 'a option" where
  "pop xs = (if xs = [] then None else Some (last xs))"

text \<open>A non-negative integer as \<^verbatim>\<open>Array.prototype.join\<close> prints it.\<close>

fun decimal :: "nat \<Rightarrow> string" where
  "decimal n = (if n < 10 then [digit_chars ! n] else decimal (n div 10) @ [digit_chars ! (n mod 10)])"

declare decimal.simps [simp del]

section \<open>Regular expressions\<close>

text \<open>
  The five patterns of \<^verbatim>\<open>uaMatch\<close> use literals, the sets \<^verbatim>\<open>[ \/]\<close>, \<^verbatim>\<open>[\w.]\<close> and \<^verbatim>\<open>.\<close>, the
  quantifiers \<^verbatim>\<open>+\<close>, \<^verbatim>\<open>*\<close> and \<^verbatim>\<open>*?\<close> on a set, sequence, alternative and groups.
  \<open>rx_match\<close> lists the ways a pattern matches at the start of a string in the order a
  backtracking matcher tries them (a greedy quantifier the longest run first, a lazy one
  the shortest, the left alternative before the right), each with the rest of the string
  and the groups captured. \<open>rx_exec\<close> is \<^verbatim>\<open>RegExp.prototype.exec\<close> without flags: the first way
  at the leftmost position that has one, or \<open>None\<close> for \<^verbatim>\<open>null\<close>.
\<close>

datatype cset = Among string | WordOrDot | Dot

fun in_cset :: "cset \<Rightarrow> char \<Rightarrow> bool" where
  "in_cset (Among cs) c = (c \<in> set cs)"
| "in_cset WordOrDot c = (c \<in> set (upper_chars @ lower_chars @ digit_chars @ ''_.''))"
| "in_cset Dot c = (c \<noteq> CHR 0x0A \<and> c \<noteq> CHR 0x0D)"

declare in_cset.simps [simp del]

datatype rx =
    Str string
  | One cset
  | Plus cset
  | Star cset
  | StarLazy cset
  | Cat rx rx
  | Alt rx rx
  | Eps
  | Grp nat rx

type_synonym caps = "nat \<rightharpoonup> string"

fun rx_match :: "rx \<Rightarrow> string \<Rightarrow> caps \<Rightarrow> (string \<times> caps) list" where
  "rx_match (Str l) s cp = (if take (length l) s = l then [(drop (length l) s, cp)] else [])"
| "rx_match (One c) s cp =
     (case s of [] \<Rightarrow> [] | x # xs \<Rightarrow> if in_cset c x then [(xs, cp)] else [])"
| "rx_match (Plus c) s cp =
     map (\<lambda>k. (drop k s, cp)) (rev [1 ..< Suc (length (takeWhile (in_cset c) s))])"
| "rx_match (Star c) s cp =
     map (\<lambda>k. (drop k s, cp)) (rev [0 ..< Suc (length (takeWhile (in_cset c) s))])"
| "rx_match (StarLazy c) s cp =
     map (\<lambda>k. (drop k s, cp)) [0 ..< Suc (length (takeWhile (in_cset c) s))]"
| "rx_match (Cat a b) s cp = concat (map (\<lambda>(r, cp'). rx_match b r cp') (rx_match a s cp))"
| "rx_match (Alt a b) s cp = rx_match a s cp @ rx_match b s cp"
| "rx_match Eps s cp = [(s, cp)]"
| "rx_match (Grp i a) s cp =
     map (\<lambda>(r, cp'). (r, cp'(i \<mapsto> take (length s - length r) s))) (rx_match a s cp)"

fun rx_exec :: "rx \<Rightarrow> string \<Rightarrow> caps option" where
  "rx_exec r [] = (case rx_match r [] Map.empty of [] \<Rightarrow> None | (_, cp) # _ \<Rightarrow> Some cp)"
| "rx_exec r (x # xs) =
     (case rx_match r (x # xs) Map.empty of [] \<Rightarrow> rx_exec r xs | (_, cp) # _ \<Rightarrow> Some cp)"

section \<open>The coverage receiver: \<^verbatim>\<open>uaMatch\<close>\<close>

text \<open>\<^verbatim>\<open>/(chrome)[ \/]([\w.]+)/\<close>\<close>

definition chrome_rx :: rx where
  "chrome_rx = Cat (Grp 1 (Str ''chrome'')) (Cat (One (Among '' /'')) (Grp 2 (Plus WordOrDot)))"

text \<open>\<^verbatim>\<open>/(webkit)[ \/]([\w.]+)/\<close>\<close>

definition webkit_rx :: rx where
  "webkit_rx = Cat (Grp 1 (Str ''webkit'')) (Cat (One (Among '' /'')) (Grp 2 (Plus WordOrDot)))"

text \<open>\<^verbatim>\<open>/(opera)(?:.*version|)[ \/]([\w.]+)/\<close>\<close>

definition opera_rx :: rx where
  "opera_rx = Cat (Grp 1 (Str ''opera''))
     (Cat (Alt (Cat (Star Dot) (Str ''version'')) Eps)
       (Cat (One (Among '' /'')) (Grp 2 (Plus WordOrDot))))"

text \<open>\<^verbatim>\<open>/(msie) ([\w.]+)/\<close>\<close>

definition msie_rx :: rx where
  "msie_rx = Cat (Grp 1 (Str ''msie'')) (Cat (Str '' '') (Grp 2 (Plus WordOrDot)))"

text \<open>\<^verbatim>\<open>/(mozilla)(?:.*? rv:([\w.]+)|)/\<close>\<close>

definition mozilla_rx :: rx where
  "mozilla_rx = Cat (Grp 1 (Str ''mozilla''))
     (Alt (Cat (StarLazy Dot) (Cat (Str '' rv:'') (Grp 2 (Plus WordOrDot)))) Eps)"

record browser =
  name :: string
  version :: string

text \<open>\<^verbatim>\<open>match[i] || d\<close>: an absent group and an empty one both give the default.\<close>

definition group_or :: "caps \<Rightarrow> nat \<Rightarrow> string \<Rightarrow> string" where
  "group_or m i d = (case m i of Some s \<Rightarrow> if s = [] then d else s | None \<Rightarrow> d)"

text \<open>
  The chain \<^verbatim>\<open>exec(ua) || exec(ua) || ... || []\<close> on the lower-cased string: the first
  pattern that matches gives the groups, the Mozilla pattern being tried only when
  \<^verbatim>\<open>ua.indexOf("compatible") < 0\<close>; the empty array has no groups.
\<close>

definition ua_groups :: "string \<Rightarrow> caps" where
  "ua_groups ua =
     (case rx_exec chrome_rx ua of Some m \<Rightarrow> m | None \<Rightarrow>
      (case rx_exec webkit_rx ua of Some m \<Rightarrow> m | None \<Rightarrow>
       (case rx_exec opera_rx ua of Some m \<Rightarrow> m | None \<Rightarrow>
        (case rx_exec msie_rx ua of Some m \<Rightarrow> m | None \<Rightarrow>
         (if indexOf ua ''compatible'' < 0
          then (case rx_exec mozilla_rx ua of Some m \<Rightarrow> m | None \<Rightarrow> Map.empty)
          else Map.empty)))))"

text \<open>
  \<^verbatim>\<open>gpii.testem.coverage.receiver.uaMatch\<close>. \<^verbatim>\<open>ua.toLowerCase()\<close> throws a \<^verbatim>\<open>TypeError\<close> on
  anything but a string.
\<close>

fun uaMatch :: "jsval \<Rightarrow> js_error + browser" where
  "uaMatch (JStr ua) =
     (let m = ua_groups (toLowerCase ua)
      in Inr \<lparr> name = group_or m 1 ''unknown'', version = group_or m 2 ''0'' \<rparr>)"
| "uaMatch v = Inl TypeError"

section \<open>The coverage receiver: \<^verbatim>\<open>middlewareImpl\<close>\<close>

text \<open>
  What the handler takes from its surroundings: \<^verbatim>\<open>fluid.module.resolvePath\<close> (Infusion),
  \<^verbatim>\<open>JSON.parse\<close>, \<^verbatim>\<open>JSON.stringify(v, null, 2)\<close> (\<^verbatim>\<open>undefined\<close> for \<^verbatim>\<open>undefined\<close>), \<^verbatim>\<open>path.join\<close>,
  the integer \<^verbatim>\<open>Math.round(Math.random() * 10000)\<close>, and the error, if any, that
  \<^verbatim>\<open>fs.writeFile\<close> hands to its callback.
\<close>

record receiver_env =
  resolvePath :: "string option \<Rightarrow> js_error + string"
  JSON_parse :: "string \<Rightarrow> js_error + jsval"
  JSON_stringify :: "jsval \<Rightarrow> string option"
  path_join :: "string \<Rightarrow> string \<Rightarrow> string"
  random_int :: nat
  writeFile :: "string \<Rightarrow> string option \<Rightarrow> js_error option"

text \<open>\<^verbatim>\<open>that.options.coverageDir\<close> (\<open>None\<close> when the option is \<^verbatim>\<open>undefined\<close>) and \<^verbatim>\<open>that.id\<close>.\<close>

record receiver =
  coverageDir :: "string option"
  that_id :: string

datatype response_body =
    ErrorBody bool js_error
  | MessageBody string

record response =
  status :: nat
  body :: response_body

text \<open>What one handled request did: the file written, its content, the response sent.\<close>

record handled =
  written_path :: string
  written_data :: "string option"
  sent :: response

text \<open>
  \<^verbatim>\<open>testPath ? testPath.split("/").pop() : "unknown"\<close>, as \<^verbatim>\<open>join\<close> prints it in the file name
  (\<^verbatim>\<open>undefined\<close> as the empty string); \<^verbatim>\<open>split\<close> is a method of strings only.
\<close>

definition testFilename :: "jsval \<Rightarrow> js_error + string" where
  "testFilename testPath =
     (if truthy testPath
      then (case testPath of
              JStr s \<Rightarrow> (case pop (split CHR ''/'' s) of Some f \<Rightarrow> Inr f | None \<Rightarrow> Inr [])
            | _ \<Rightarrow> Inl TypeError)
      else Inr ''unknown'')"

definition coverageFilename :: "browser \<Rightarrow> string \<Rightarrow> string \<Rightarrow> nat \<Rightarrow> string" where
  "coverageFilename b file ident r =
     concat [''coverage'', ''-'', name b, ''-'', version b, ''-'', file, ''-'', ident, ''-'',
             decimal r, ''.json'']"

definition respond :: "js_error option \<Rightarrow> response" where
  "respond err =
     (case err of
        Some e \<Rightarrow> \<lparr> status = 500, body = ErrorBody True e \<rparr>
      | None \<Rightarrow> \<lparr> status = 200, body = MessageBody ''You have successfully saved your coverage report.'' \<rparr>)"

text \<open>
  \<^verbatim>\<open>gpii.testem.coverage.receiver.middlewareImpl\<close>, statement by statement; the first
  statement that throws ends the handler with that error, nothing written, nothing sent.
\<close>

definition middlewareImpl :: "receiver_env \<Rightarrow> receiver \<Rightarrow> string \<Rightarrow> js_error + handled" where
  "middlewareImpl env that payload =
     (case resolvePath env (coverageDir that) of Inl e \<Rightarrow> Inl e | Inr resolvedCoverageDir \<Rightarrow>
      (case JSON_parse env payload of Inl e \<Rightarrow> Inl e | Inr parsed \<Rightarrow>
       (case uaMatch (fluid_get parsed [''navigator'', ''userAgent'']) of Inl e \<Rightarrow> Inl e | Inr b \<Rightarrow>
        (case js_member parsed ''document'' of Inl e \<Rightarrow> Inl e | Inr doc \<Rightarrow>
         (case testFilename (fluid_get doc [''URL'']) of Inl e \<Rightarrow> Inl e | Inr file \<Rightarrow>
          (case js_member parsed ''coverage'' of Inl e \<Rightarrow> Inl e | Inr cov \<Rightarrow>
           (let coverageOutputPath =
                  path_join env resolvedCoverageDir (coverageFilename b file (that_id that) (random_int env));
                content = JSON_stringify env cov
            in Inr \<lparr> written_path = coverageOutputPath,
                     written_data = content,
                     sent = respond (writeFile env coverageOutputPath content) \<rparr>)))))))"

subsection \<open>Vocabulary for the statements about the receiver\<close>

text \<open>The group numbers a pattern can set.\<close>

fun groups :: "rx \<Rightarrow> nat set" where
  "groups (Cat a b) = groups a \<union> groups b"
| "groups (Alt a b) = groups a \<union> groups b"
| "groups (Grp i a) = insert i (groups a)"
| "groups r = {}"

text \<open>Group 2 holds a non-empty run of \<^verbatim>\<open>[\w.]\<close> characters.\<close>

definition versioned :: "caps \<Rightarrow> bool" where
  "versioned m = (\<exists>v. m 2 = Some v \<and> v \<noteq> [] \<and> (\<forall>x\<in>set v. in_cset WordOrDot x))"

definition known_version :: "browser \<Rightarrow> bool" where
  "known_version b = (version b \<noteq> [] \<and> (\<forall>x\<in>set (version b). in_cset WordOrDot x))"

text \<open>User-agent strings of a Chrome 91, an Internet Explorer 9 and a Safari 14.\<close>

definition chrome91_ua :: string where
  "chrome91_ua = ''Mozilla/5.0 (Windows NT 10.0; Win64; x64) AppleWebKit/537.36 (KHTML, like Gecko) Chrome/91.0.4472.124 Safari/537.36''"

definition msie9_ua :: string where
  "msie9_ua = ''Mozilla/5.0 (compatible; MSIE 9.0; Windows NT 6.1; Trident/5.0)''"

definition safari_ua :: string where
  "safari_ua = ''Mozilla/5.0 (Macintosh; Intel Mac OS X 10_15_7) AppleWebKit/605.1.15 (KHTML, like Gecko) Version/14.1.1 Safari/605.1.15''"

text \<open>
  Surroundings for running the handler on an example: \<^verbatim>\<open>JSON.parse\<close> reads the payload as
  the given value, paths are joined with a slash, the random integer is 4711, and the
  write succeeds or fails as the last argument says.
\<close>

definition example_env :: "jsval \<Rightarrow> js_error option \<Rightarrow> receiver_env" where
  "example_env parsed write_error =
     \<lparr> resolvePath = (\<lambda>d. case d of Some p \<Rightarrow> Inr p | None \<Rightarrow> Inl TypeError),
       JSON_parse = (\<lambda>payload. Inr parsed),
       JSON_stringify = (\<lambda>v. case v of Undefined \<Rightarrow> None | _ \<Rightarrow> Some ''{}''),
       path_join = (\<lambda>d f. d @ ''/'' @ f),
       random_int = 4711,
       writeFile = (\<lambda>p c. write_error) \<rparr>"

definition example_receiver :: receiver where
  "example_receiver = \<lparr> coverageDir = Some ''/tmp/coverage-abc'', that_id = ''abc'' \<rparr>"

text \<open>
  An upload as the browser sends it, the same upload without \<^verbatim>\<open>navigator\<close>, and one whose
  \<^verbatim>\<open>navigator\<close> has no \<^verbatim>\<open>userAgent\<close>.
\<close>

definition full_upload :: jsval where
  "full_upload = JObj
     [(''navigator'', JObj [(''userAgent'', JStr chrome91_ua)]),
      (''document'', JObj [(''URL'', JStr ''http://x/tests/foo.html'')]),
      (''coverage'', JObj [])]"

definition upload_without_userAgent :: jsval where
  "upload_without_userAgent = JObj
     [(''document'', JObj [(''URL'', JStr ''http://x/tests/foo.html'')]),
      (''coverage'', JObj [])]"

definition upload_with_empty_navigator :: jsval where
  "upload_with_empty_navigator = JObj
     [(''navigator'', JObj []),
      (''document'', JObj [(''URL'', JStr ''http://localhost:7000/tests/bar.html'')]),
      (''coverage'', JObj [(''src/js/a.js'', JObj [])])]"

section \<open>Logging\<close>

text \<open>
  \<^verbatim>\<open>fluid.log\<close> takes an optional level first (\<^verbatim>\<open>fluid.logLevel.WARN\<close>, \<^verbatim>\<open>fluid.logLevel.FAIL\<close>);
  a call without one logs at the default level, here \<open>INFO\<close>. A logged line keeps the
  arguments of the call, texts and error values, in order.
\<close>

datatype level = INFO | WARN | FAIL

datatype logged = Txt string | Err js_error

type_synonym log_line = "level \<times> logged list"

section \<open>The Testem component: unique directory names\<close>

text \<open>
  \<^verbatim>\<open>gpii.testem.resolveFluidModulePathSafely\<close> is defined in \<^verbatim>\<open>./lib/resolveSafely\<close>, which is
  not among the sources: it is a parameter that returns a path or throws. \<^verbatim>\<open>path.resolve\<close>
  and \<^verbatim>\<open>os.tmpdir()\<close> are Node's.
\<close>

record dir_env =
  resolveFluidModulePathSafely :: "string \<Rightarrow> js_error + string"
  path_resolve :: "string \<Rightarrow> string \<Rightarrow> string"
  os_tmpdir :: string

text \<open>
  \<^verbatim>\<open>gpii.testem.generateUniqueDirName\<close>: the value returned (\<open>None\<close> for \<^verbatim>\<open>undefined\<close>, which
  is what falling off the end of the \<^verbatim>\<open>catch\<close> block returns) and the lines logged. The
  \<^verbatim>\<open>try\<close> block spans the whole body, so nothing is thrown.
\<close>

definition generateUniqueDirName ::
  "dir_env \<Rightarrow> string \<Rightarrow> string \<Rightarrow> string \<Rightarrow> string option \<times> log_line list" where
  "generateUniqueDirName env basePath prefix suffix =
     (case resolveFluidModulePathSafely env basePath of
        Inr resolvedBasePath \<Rightarrow> (Some (path_resolve env resolvedBasePath (prefix @ ''-'' @ suffix)), [])
      | Inl error \<Rightarrow> (None, [(INFO, [Txt ''Error generating unique dir name:'', Err error])]))"

text \<open>
  The four directory options that the grades \<^verbatim>\<open>gpii.testem.base\<close> and \<^verbatim>\<open>gpii.testem.coverage\<close>
  build with an expander calling \<^verbatim>\<open>generateUniqueDirName\<close> with \<^verbatim>\<open>os.tmpdir()\<close>, a prefix and
  the component's id; the option's value is what the call returns.
\<close>

definition testemDir :: "dir_env \<Rightarrow> string \<Rightarrow> string option" where
  "testemDir env ident = fst (generateUniqueDirName env (os_tmpdir env) ''user_data_dir'' ident)"

definition reportsDir :: "dir_env \<Rightarrow> string \<Rightarrow> string option" where
  "reportsDir env ident = fst (generateUniqueDirName env (os_tmpdir env) ''reports'' ident)"

definition coverageDirOption :: "dir_env \<Rightarrow> string \<Rightarrow> string option" where
  "coverageDirOption env ident = fst (generateUniqueDirName env (os_tmpdir env) ''coverage'' ident)"

definition instrumentedSourceDir :: "dir_env \<Rightarrow> string \<Rightarrow> string option" where
  "instrumentedSourceDir env ident =
     fst (generateUniqueDirName env (os_tmpdir env) ''instrumented'' ident)"

text \<open>Surroundings in which no base path resolves, and ones in which every path does.\<close>

definition failing_dir_env :: dir_env where
  "failing_dir_env =
     \<lparr> resolveFluidModulePathSafely = (\<lambda>p. Inl (Failure ''cannot resolve'')),
       path_resolve = (\<lambda>d f. d @ ''/'' @ f),
       os_tmpdir = ''/tmp'' \<rparr>"

section \<open>The Testem component: \<^verbatim>\<open>constructProxies\<close>\<close>


text \<open>
  \<^verbatim>\<open>fluid.transform(dirDefs, f)\<close> applies \<open>f\<close> to every member of an object and keeps the keys.
\<close>

definition fluid_transform :: "('a \<Rightarrow> 'b) \<Rightarrow> (string \<times> 'a) list \<Rightarrow> (string \<times> 'b) list" where
  "fluid_transform f dirDefs = map (\<lambda>(k, d). (k, f d)) dirDefs"


text \<open>
  A key is an array index when it is the decimal numeral, without leading zeros, of a
  number below \<open>2\<^sup>3\<^sup>2 - 1\<close>.
\<close>

definition digit_value :: "char \<Rightarrow> int" where
  "digit_value c =
     (case map_of (zip digit_chars [0, 1, 2, 3, 4, 5, 6, 7, 8, 9]) c of Some n \<Rightarrow> n | None \<Rightarrow> 0)"

definition numeral_value :: "string \<Rightarrow> int" where
  "numeral_value s = foldl (\<lambda>n c. 10 * n + digit_value c) 0 s"

definition array_index :: "string \<Rightarrow> int option" where
  "array_index key =
     (if key \<noteq> [] \<and> list_all (\<lambda>c. c \<in> set digit_chars) key \<and> (key = ''0'' \<or> hd key \<in> set ''123456789'') \<and>
         numeral_value key < 4294967295
      then Some (numeral_value key) else None)"










section \<open>Infusion promises\<close>

text \<open>
  \<^verbatim>\<open>fluid.promise()\<close> of Infusion, on which every function below rests. A promise is pending,
  or holds the value it was resolved with, or the reason it was rejected with. \<^verbatim>\<open>then\<close>
  queues a handler while the promise is pending and calls it at once when the promise
  already has the matching disposition; \<^verbatim>\<open>resolve\<close> and \<^verbatim>\<open>reject\<close> record the disposition and
  call the queued handlers in the order they were queued, before returning; on a promise
  that already has a disposition they call \<^verbatim>\<open>fluid.fail\<close>, which raises. Handlers are closures
  in the source; here a handler is a tag of type \<open>'h\<close>, and the functions return the
  handlers that are to be called, each with its argument, for the caller to run.
\<close>

datatype 'v disposition = Pending | Resolve 'v | Reject 'v

record ('h, 'v) promise =
  disposition :: "'v disposition"
  onResolve :: "'h list"
  onReject :: "'h list"

definition fluid_promise :: "('h, 'v) promise" where
  "fluid_promise = \<lparr> disposition = Pending, onResolve = [], onReject = [] \<rparr>"

definition promise_then :: "'h \<Rightarrow> 'h \<Rightarrow> ('h, 'v) promise \<Rightarrow> ('h, 'v) promise \<times> ('h \<times> 'v) list" where
  "promise_then onRes onRej p =
     (case disposition p of
        Pending \<Rightarrow> (p\<lparr> onResolve := onResolve p @ [onRes], onReject := onReject p @ [onRej] \<rparr>, [])
      | Resolve v \<Rightarrow> (p\<lparr> onReject := onReject p @ [onRej] \<rparr>, [(onRes, v)])
      | Reject r \<Rightarrow> (p\<lparr> onResolve := onResolve p @ [onRes] \<rparr>, [(onRej, r)]))"

definition already_settled :: js_error where
  "already_settled = FluidFail (Failure ''promise has already received a disposition'')"

definition promise_resolve ::
  "'v \<Rightarrow> ('h, 'v) promise \<Rightarrow> js_error + ('h, 'v) promise \<times> ('h \<times> 'v) list" where
  "promise_resolve v p =
     (case disposition p of
        Pending \<Rightarrow> Inr (p\<lparr> disposition := Resolve v \<rparr>, map (\<lambda>h. (h, v)) (onResolve p))
      | _ \<Rightarrow> Inl already_settled)"

definition promise_reject ::
  "'v \<Rightarrow> ('h, 'v) promise \<Rightarrow> js_error + ('h, 'v) promise \<times> ('h \<times> 'v) list" where
  "promise_reject r p =
     (case disposition p of
        Pending \<Rightarrow> Inr (p\<lparr> disposition := Reject r \<rparr>, map (\<lambda>h. (h, r)) (onReject p))
      | _ \<Rightarrow> Inl already_settled)"

section \<open>Infusion transform chains\<close>

text \<open>
  A listener of a transform chain, written as what a call to it does: it returns a value,
  or a promise with the disposition the promise has when it is returned, or it throws.
\<close>

datatype called = Returned jsval | Promised "jsval disposition" | Threw js_error

text \<open>
  \<^verbatim>\<open>fluid.promise.fireTransformEvent(event, payload)\<close> calls the listeners of the event in
  order, each with what the one before gave, and returns a new promise for the whole
  chain. A listener that returns a promise makes the chain wait for it: while that promise
  is pending so is the chain, and its rejection rejects the chain, after which no further
  listener is called. After the last listener the chain is resolved. The listeners are
  called without a \<^verbatim>\<open>try\<close> block: what one of them throws leaves \<^verbatim>\<open>fireTransformEvent\<close>, and
  no promise is returned. The result is the exception, or the disposition of the promise
  returned.
\<close>

fun fireTransformEvent :: "called list \<Rightarrow> jsval \<Rightarrow> js_error + jsval disposition" where
  "fireTransformEvent [] payload = Inr (Resolve payload)"
| "fireTransformEvent (Threw error # listeners) payload = Inl error"
| "fireTransformEvent (Returned v # listeners) payload = fireTransformEvent listeners v"
| "fireTransformEvent (Promised (Resolve v) # listeners) payload = fireTransformEvent listeners v"
| "fireTransformEvent (Promised (Reject r) # listeners) payload = Inr (Reject r)"
| "fireTransformEvent (Promised Pending # listeners) payload = Inr Pending"

section \<open>The Testem component: \<^verbatim>\<open>handleTestemLifecycleEvent\<close>\<close>

text \<open>
  The two anonymous functions handed to \<^verbatim>\<open>eventTransformChain.then\<close>. Each logs a line and
  calls \<^verbatim>\<open>testemCallback()\<close>; the state counts the calls of the callback.
\<close>

datatype chain_handler = ChainResolved | ChainRejected

record lifecycle =
  chain :: "(chain_handler, jsval) promise"
  lifecycle_log :: "log_line list"
  testemCallback_calls :: nat

fun call_chain_handler :: "lifecycle \<Rightarrow> chain_handler \<times> jsval \<Rightarrow> lifecycle" where
  "call_chain_handler st (ChainResolved, v) =
     st\<lparr> lifecycle_log := lifecycle_log st @
            [(INFO, [Txt ''Successfully reached the end of promise chain. Firing testem callback.''])],
         testemCallback_calls := Suc (testemCallback_calls st) \<rparr>"
| "call_chain_handler st (ChainRejected, v) =
     st\<lparr> lifecycle_log := lifecycle_log st @
            [(INFO, [Txt ''Promise chain terminated by promise rejection. Firing testem callback.''])],
         testemCallback_calls := Suc (testemCallback_calls st) \<rparr>"

text \<open>
  \<^verbatim>\<open>gpii.testem.handleTestemLifecycleEvent\<close>, for the listeners of the component event, the
  log and the number of calls of the callback so far. The call of \<^verbatim>\<open>fireTransformEvent\<close> is
  not in a \<^verbatim>\<open>try\<close> block: when it throws, the function ends with that exception before
  \<^verbatim>\<open>then\<close> is reached.
\<close>

definition handleTestemLifecycleEvent :: "called list \<Rightarrow> log_line list \<Rightarrow> nat \<Rightarrow> js_error + lifecycle" where
  "handleTestemLifecycleEvent componentEvent log0 calls0 =
     (case fireTransformEvent componentEvent Undefined of
        Inl error \<Rightarrow> Inl error
      | Inr d \<Rightarrow>
          (let eventTransformChain = fluid_promise\<lparr> disposition := d \<rparr>;
               (eventTransformChain', now) = promise_then ChainResolved ChainRejected eventTransformChain
           in Inr (foldl call_chain_handler
                     \<lparr> chain = eventTransformChain', lifecycle_log = log0, testemCallback_calls = calls0 \<rparr>
                     now)))"

text \<open>
  What can happen to a chain that was returned pending: the sequence behind it resolves
  or rejects its promise, when the promise it waits for is settled and the listeners that
  follow have run. An attempt on a promise that is settled raises in the one who tries and
  changes nothing.
\<close>

datatype chain_event = ChainResolves jsval | ChainRejects jsval

definition chain_step :: "lifecycle \<Rightarrow> chain_event \<Rightarrow> lifecycle" where
  "chain_step st ev =
     (case (case ev of ChainResolves v \<Rightarrow> promise_resolve v (chain st)
                     | ChainRejects r \<Rightarrow> promise_reject r (chain st)) of
        Inl e \<Rightarrow> st
      | Inr (p, hs) \<Rightarrow> foldl call_chain_handler (st\<lparr> chain := p \<rparr>) hs)"

definition chain_run :: "lifecycle \<Rightarrow> chain_event list \<Rightarrow> lifecycle" where
  "chain_run st evs = foldl chain_step st evs"

definition settled :: "('h, 'v) promise \<Rightarrow> bool" where
  "settled p = (disposition p \<noteq> Pending)"

section \<open>The Testem component: \<^verbatim>\<open>wrapSecondaryEvent\<close>\<close>

text \<open>
  The handlers queued on the event promise: \<^verbatim>\<open>removeListener\<close> with the namespace it closes
  over, \<^verbatim>\<open>clearPromiseTimeout\<close>, and whatever the caller that receives the promise queues
  afterwards (the transform chain queues its continuation), numbered.
\<close>

datatype wait_handler = RemoveListener string | ClearPromiseTimeout | Subscriber nat

text \<open>
  The timer of \<^verbatim>\<open>setTimeout\<close>: not set, waiting with its delay and the text its callback
  logs, cleared by \<^verbatim>\<open>clearTimeout\<close>, or done after its callback ran.
\<close>

datatype timer = NoTimer | Armed nat string | Cleared | Fired

text \<open>
  A listener of the wrapped event: the one \<^verbatim>\<open>generateSingleUseEventListener\<close> adds, which
  resolves the event promise with the arguments of the event, or some other listener.
\<close>

datatype listener = SingleUse | OtherListener nat

record waiting =
  listeners :: "(string \<times> listener list) list"
  timeout :: timer
  eventPromise :: "(wait_handler, jsval) promise"
  wait_log :: "log_line list"
  notified :: "(nat \<times> jsval) list"
  raised :: "js_error list"

text \<open>\<^verbatim>\<open>that.id\<close> and \<^verbatim>\<open>that.options.wrappedEventTimeout\<close>.\<close>

record component =
  component_id :: string
  wrappedEventTimeout :: nat


definition addListener ::
  "listener \<Rightarrow> string \<Rightarrow> (string \<times> listener list) list \<Rightarrow> (string \<times> listener list) list" where
  "addListener l namespace ls =
     (case map_of ls namespace of
        None \<Rightarrow> ls @ [(namespace, [l])]
      | Some stack \<Rightarrow> AList.update namespace (l # stack) ls)"

definition removeListener :: "string \<Rightarrow> (string \<times> listener list) list \<Rightarrow> (string \<times> listener list) list" where
  "removeListener namespace ls =
     (case map_of ls namespace of
        None \<Rightarrow> ls
      | Some stack \<Rightarrow>
          if tl stack = [] then AList.delete namespace ls else AList.update namespace (tl stack) ls)"

definition sortedListeners :: "(string \<times> listener list) list \<Rightarrow> (string \<times> listener) list" where
  "sortedListeners ls =
     map (\<lambda>(namespace, stack). (namespace, hd stack)) (filter (\<lambda>(namespace, stack). stack \<noteq> []) ls)"

fun call_wait_handler :: "waiting \<Rightarrow> wait_handler \<times> jsval \<Rightarrow> waiting" where
  "call_wait_handler st (RemoveListener namespace, v) =
     st\<lparr> listeners := removeListener namespace (listeners st) \<rparr>"
| "call_wait_handler st (ClearPromiseTimeout, v) =
     st\<lparr> timeout := (case timeout st of Armed d msg \<Rightarrow> Cleared | t \<Rightarrow> t) \<rparr>"
| "call_wait_handler st (Subscriber n, v) =
     st\<lparr> notified := notified st @ [(n, v)] \<rparr>"

definition listenerNamespace :: "component \<Rightarrow> string" where
  "listenerNamespace that = ''gpii.testem.singleUse.'' @ component_id that"

text \<open>\<^verbatim>\<open>gpii.testem.generateSingleUseEventListener\<close>, given the listeners the event has.\<close>

definition generateSingleUseEventListener :: "component \<Rightarrow> (string \<times> listener list) list \<Rightarrow> waiting" where
  "generateSingleUseEventListener that event_listeners =
     (let (p, now) = promise_then (RemoveListener (listenerNamespace that))
                       (RemoveListener (listenerNamespace that)) fluid_promise
      in foldl call_wait_handler
           \<lparr> listeners = addListener SingleUse (listenerNamespace that) event_listeners,
             timeout = NoTimer, eventPromise = p, wait_log = [], notified = [], raised = [] \<rparr> now)"

text \<open>\<^verbatim>\<open>gpii.testem.addPromiseTimeout\<close> on the event promise of the state.\<close>

definition addPromiseTimeout :: "string \<Rightarrow> nat \<Rightarrow> waiting \<Rightarrow> waiting" where
  "addPromiseTimeout rejectionPayload timeoutInMillis st =
     (let (p, now) = promise_then ClearPromiseTimeout ClearPromiseTimeout (eventPromise st)
      in foldl call_wait_handler
           (st\<lparr> timeout := Armed timeoutInMillis rejectionPayload, eventPromise := p \<rparr>) now)"

text \<open>\<^verbatim>\<open>gpii.testem.wrapSecondaryEvent\<close> for the event with the given name and listeners.\<close>

definition wrapSecondaryEvent ::
  "component \<Rightarrow> string \<Rightarrow> (string \<times> listener list) list \<Rightarrow> waiting" where
  "wrapSecondaryEvent that event_name event_listeners =
     addPromiseTimeout (''Timed out while waiting for event '' @ [CHR 0x27] @ event_name @ [CHR 0x27] @ '' to fire...'')
       (wrappedEventTimeout that)
       (generateSingleUseEventListener that event_listeners)"

text \<open>
  What can happen while the chain waits: the wrapped event fires with arguments, the
  timer runs out, somebody else resolves or rejects the promise, the holder of the promise
  queues handlers of its own, or somebody else adds a listener to the event under a
  namespace or removes the one under a namespace.
\<close>

datatype wait_event =
    Fires "jsval list"
  | TimerElapses
  | Resolves jsval
  | Rejects jsval
  | Subscribes nat
  | Adds nat string
  | Removes string

text \<open>
  Settling the event promise and running the handlers it hands back; an attempt on a
  settled promise is recorded as raised.
\<close>

definition settle_wait :: "(js_error + (wait_handler, jsval) promise \<times> (wait_handler \<times> jsval) list) \<Rightarrow> waiting \<Rightarrow> waiting" where
  "settle_wait r st =
     (case r of
        Inl e \<Rightarrow> st\<lparr> raised := raised st @ [e] \<rparr>
      | Inr (p, hs) \<Rightarrow> foldl call_wait_handler (st\<lparr> eventPromise := p \<rparr>) hs)"

text \<open>
  The event calls the listeners it has when it fires; the single-use listener does
  \<^verbatim>\<open>eventPromise.resolve(fluid.makeArray(arguments))\<close>.
\<close>

fun call_listener :: "jsval list \<Rightarrow> waiting \<Rightarrow> string \<times> listener \<Rightarrow> waiting" where
  "call_listener args st (namespace, SingleUse) =
     settle_wait (promise_resolve (JArr args) (eventPromise st)) st"
| "call_listener args st (namespace, OtherListener n) = st"

fun wait_step :: "waiting \<Rightarrow> wait_event \<Rightarrow> waiting" where
  "wait_step st (Fires args) = foldl (call_listener args) st (sortedListeners (listeners st))"
| "wait_step st TimerElapses =
     (case timeout st of
        Armed d rejectionPayload \<Rightarrow>
          settle_wait (promise_resolve Undefined (eventPromise st))
            (st\<lparr> timeout := Fired, wait_log := wait_log st @ [(INFO, [Txt rejectionPayload])] \<rparr>)
      | t \<Rightarrow> st)"
| "wait_step st (Resolves v) = settle_wait (promise_resolve v (eventPromise st)) st"
| "wait_step st (Rejects r) = settle_wait (promise_reject r (eventPromise st)) st"
| "wait_step st (Subscribes n) =
     (let (p, now) = promise_then (Subscriber n) (Subscriber n) (eventPromise st)
      in foldl call_wait_handler (st\<lparr> eventPromise := p \<rparr>) now)"
| "wait_step st (Adds n namespace) =
     st\<lparr> listeners := addListener (OtherListener n) namespace (listeners st) \<rparr>"
| "wait_step st (Removes namespace) =
     st\<lparr> listeners := removeListener namespace (listeners st) \<rparr>"

definition wait_run :: "waiting \<Rightarrow> wait_event list \<Rightarrow> waiting" where
  "wait_run st evs = foldl wait_step st evs"

text \<open>An example component and the state right after it starts waiting for an event.\<close>

definition example_component :: component where
  "example_component = \<lparr> component_id = ''abc'', wrappedEventTimeout = 30000 \<rparr>"


subsection \<open>Vocabulary for the statements about the wait\<close>

text \<open>The text the timer logs, \<^verbatim>\<open>"Timed out while waiting for event '" + event.name + "' to fire..."\<close>.\<close>

definition timed_out_message :: "string \<Rightarrow> string" where
  "timed_out_message event_name =
     ''Timed out while waiting for event '' @ [CHR 0x27] @ event_name @ [CHR 0x27] @ '' to fire...''"





text \<open>The same for the lifecycle entry point, \<open>calls0\<close> being the calls made before it.\<close>

definition lifecycle_inv :: "nat \<Rightarrow> lifecycle \<Rightarrow> bool" where
  "lifecycle_inv calls0 st =
     (if settled (chain st) then testemCallback_calls st = Suc calls0
      else testemCallback_calls st = calls0 \<and> onResolve (chain st) = [ChainResolved] \<and>
           onReject (chain st) = [ChainRejected])"

section \<open>Sequences of promise-returning functions\<close>

text \<open>
  For the cleanup, a promise-returning function is written as the function from the
  state before it is called to what its promise comes to and the state then: the promise
  is resolved, or rejected with a reason, or an exception leaves the function, in which
  case no promise is settled.
\<close>

datatype outcome = Resolved | Rejected js_error | Thrown js_error

text \<open>
  \<^verbatim>\<open>fluid.promise.sequence\<close> (Infusion) calls the functions of an array one after the other,
  each after the promise of the one before is resolved; the first rejection rejects the
  promise of the sequence, with the same reason, and nothing further is called; an
  exception in a function is not caught. When all are resolved the sequence is.
\<close>

fun promise_sequence :: "('s \<Rightarrow> outcome \<times> 's) list \<Rightarrow> 's \<Rightarrow> outcome \<times> 's" where
  "promise_sequence [] st = (Resolved, st)"
| "promise_sequence (f # fs) st =
     (case f st of
        (Resolved, st') \<Rightarrow> promise_sequence fs st'
      | (Rejected e, st') \<Rightarrow> (Rejected e, st')
      | (Thrown e, st') \<Rightarrow> (Thrown e, st'))"

section \<open>The Testem component: cleanup\<close>

text \<open>A cleanup definition; \<open>def_path\<close> is \<open>None\<close> when the option it refers to is \<^verbatim>\<open>undefined\<close>.\<close>

record cleanup_def =
  def_name :: string
  def_path :: "string option"
  isTestemContent :: bool

text \<open>
  The surroundings of the cleanup, over any representation \<open>'fs\<close> of the file system:
  \<^verbatim>\<open>fluid.module.resolvePath\<close>, which may throw; \<^verbatim>\<open>fs.existsSync\<close>, or the exception that
  leaves the \<^verbatim>\<open>try\<close> block before \<^verbatim>\<open>rimraf\<close> is started; \<^verbatim>\<open>rimraf\<close>, as the error it hands
  to its callback, if any, and the file system it leaves (\<^verbatim>\<open>rimrafOptions\<close> is handed on
  unchanged and is part of it); \<^verbatim>\<open>fs.readdirSync\<close>, which may throw. The fields of
  \<open>dir_env\<close> give \<^verbatim>\<open>gpii.testem.resolveFluidModulePathSafely\<close>, \<^verbatim>\<open>path.resolve\<close> and
  \<^verbatim>\<open>os.tmpdir()\<close>.
\<close>

record 'fs cleanup_env = dir_env +
  module_resolvePath :: "string option \<Rightarrow> js_error + string"
  existsSync :: "'fs \<Rightarrow> string \<Rightarrow> js_error + bool"
  rimraf :: "'fs \<Rightarrow> string \<Rightarrow> js_error option \<times> 'fs"
  readdirSync :: "'fs \<Rightarrow> string \<Rightarrow> js_error + string list"

record 'fs cleaning =
  files :: 'fs
  cleanup_log :: "log_line list"

definition logs :: "log_line \<Rightarrow> 'fs cleaning \<Rightarrow> 'fs cleaning" where
  "logs line st = st\<lparr> cleanup_log := cleanup_log st @ [line] \<rparr>"

text \<open>
  The function \<^verbatim>\<open>gpii.testem.generateRimrafWrapper\<close> returns: its promise is rejected with
  the error of \<^verbatim>\<open>rimraf\<close> and resolved when there is none.
\<close>

definition generateRimrafWrapper :: "'fs cleanup_env \<Rightarrow> string \<Rightarrow> 'fs cleaning \<Rightarrow> outcome \<times> 'fs cleaning" where
  "generateRimrafWrapper env path st =
     (case rimraf env (files st) path of
        (Some rimrafError, fs') \<Rightarrow> (Rejected rimrafError, st\<lparr> files := fs' \<rparr>)
      | (None, fs') \<Rightarrow> (Resolved, st\<lparr> files := fs' \<rparr>))"

text \<open>\<^verbatim>\<open>tmpFile.match(/^Temp-.+/)\<close>\<close>

definition testemRegexp :: "string \<Rightarrow> bool" where
  "testemRegexp tmpFile = (rx_match (Cat (Str ''Temp-'') (Plus Dot)) tmpFile Map.empty \<noteq> [])"

text \<open>
  \<^verbatim>\<open>gpii.testem.cleanupTestemContent\<close>: an exception in the \<^verbatim>\<open>try\<close> block rejects \<^verbatim>\<open>togo\<close>; the
  sequence of removals resolves or rejects it.
\<close>

definition cleanupTestemContent :: "'fs cleanup_env \<Rightarrow> string \<Rightarrow> 'fs cleaning \<Rightarrow> outcome \<times> 'fs cleaning" where
  "cleanupTestemContent env pathToCleanup st =
     (case resolveFluidModulePathSafely env pathToCleanup of
        Inl error \<Rightarrow> (Rejected error, st)
      | Inr resolvedPath \<Rightarrow>
          (case readdirSync env (files st) (os_tmpdir env) of
             Inl error \<Rightarrow> (Rejected error, st)
           | Inr tmpFiles \<Rightarrow>
               promise_sequence
                 (generateRimrafWrapper env resolvedPath #
                  map (\<lambda>tmpFile. generateRimrafWrapper env (path_resolve env (os_tmpdir env) tmpFile))
                      (filter testemRegexp tmpFiles))
                 st))"

text \<open>
  The function \<^verbatim>\<open>gpii.testem.cleanupDir\<close> returns. \<^verbatim>\<open>fluid.module.resolvePath\<close> is called
  outside the \<^verbatim>\<open>try\<close> block.
\<close>

definition cleanupDir :: "'fs cleanup_env \<Rightarrow> cleanup_def \<Rightarrow> 'fs cleaning \<Rightarrow> outcome \<times> 'fs cleaning" where
  "cleanupDir env cleanupDef st =
     (case module_resolvePath env (def_path cleanupDef) of
        Inl error \<Rightarrow> (Thrown error, st)
      | Inr resolvedPath \<Rightarrow>
          if isTestemContent cleanupDef then cleanupTestemContent env resolvedPath st
          else (case existsSync env (files st) resolvedPath of
                  Inl error \<Rightarrow> (Resolved, logs (WARN, [Err error]) st)
                | Inr False \<Rightarrow>
                    (Resolved,
                     logs (INFO, [Txt (''No content exists for '' @ def_name cleanupDef @ '', skipping cleanup...'')]) st)
                | Inr True \<Rightarrow>
                    (case rimraf env (files st) resolvedPath of
                       (Some error, fs') \<Rightarrow>
                         (Resolved,
                          logs (WARN, [Txt ''Error removing '', Txt (def_name cleanupDef), Txt '' content:'', Err error])
                            (st\<lparr> files := fs' \<rparr>))
                     | (None, fs') \<Rightarrow>
                         (Resolved,
                          logs (INFO, [Txt ''Removed '', Txt (def_name cleanupDef), Txt '' content...''])
                            (st\<lparr> files := fs' \<rparr>)))))"

text \<open>
  \<^verbatim>\<open>gpii.testem.cleanup\<close>: \<^verbatim>\<open>togo\<close> takes the disposition of the sequence, and its handlers log
  the one line or the other (the rejection line carries the error; the source prints its
  stack or message with \<^verbatim>\<open>JSON.stringify\<close>).
\<close>

definition cleanup :: "'fs cleanup_env \<Rightarrow> string \<Rightarrow> cleanup_def list \<Rightarrow> 'fs cleaning \<Rightarrow> outcome \<times> 'fs cleaning" where
  "cleanup env stage cleanupDefs st =
     (case promise_sequence (map (cleanupDir env) cleanupDefs) st of
        (Resolved, st') \<Rightarrow> (Resolved, logs (INFO, [Txt stage, Txt '' cleanup completed successfully...'']) st')
      | (Rejected error, st') \<Rightarrow> (Rejected error, logs (INFO, [Txt ''Cleanup failed:'', Err error]) st')
      | (Thrown error, st') \<Rightarrow> (Thrown error, st'))"

text \<open>
  A definition that is not Testem content and whose resolved path does not exist in the
  given state of the file system.
\<close>

definition missing :: "'fs cleanup_env \<Rightarrow> 'fs \<Rightarrow> cleanup_def \<Rightarrow> bool" where
  "missing env fs d =
     (\<not> isTestemContent d \<and>
      (case module_resolvePath env (def_path d) of
         Inl e \<Rightarrow> False
       | Inr p \<Rightarrow> existsSync env fs p = Inr False))"

text \<open>
  The paths \<^verbatim>\<open>cleanupTestemContent\<close> removes, in order: the resolved directory, then every
  \<^verbatim>\<open>Temp-\<close> entry of the temporary directory.
\<close>

definition testem_paths :: "'fs cleanup_env \<Rightarrow> string \<Rightarrow> string list \<Rightarrow> string list" where
  "testem_paths env resolvedPath tmpFiles =
     resolvedPath # map (path_resolve env (os_tmpdir env)) (filter testemRegexp tmpFiles)"

subsection \<open>An example file system\<close>

text \<open>
  Files are the list of the paths that exist; paths resolve to themselves; removing
  \<open>/locked\<close> or anything below \<open>/tmp/user_data_dir-\<close> fails with \<open>EBUSY\<close>, and removing
  anything else succeeds. The temporary directory holds a leftover \<open>Temp-1234\<close>.
\<close>

definition busy :: "string \<Rightarrow> bool" where
  "busy p = (p = ''/locked'' \<or> take 19 p = ''/tmp/user_data_dir-'')"

definition example_cleanup_env :: "string list cleanup_env" where
  "example_cleanup_env =
     \<lparr> resolveFluidModulePathSafely = Inr,
       path_resolve = (\<lambda>d f. d @ ''/'' @ f),
       os_tmpdir = ''/tmp'',
       module_resolvePath = (\<lambda>p. case p of Some q \<Rightarrow> Inr q | None \<Rightarrow> Inl TypeError),
       existsSync = (\<lambda>fs p. Inr (p \<in> set fs)),
       rimraf = (\<lambda>fs p. if busy p then (Some (Failure ''EBUSY''), fs) else (None, removeAll p fs)),
       readdirSync = (\<lambda>fs d. Inr [''Temp-1234'', ''notes.txt'']) \<rparr>"

definition example_files :: "string list cleaning" where
  "example_files =
     \<lparr> files = [''/tmp/user_data_dir-abc'', ''/tmp/Temp-1234'', ''/locked'', ''/tmp/coverage-abc''],
       cleanup_log = [] \<rparr>"

definition testem_def :: cleanup_def where
  "testem_def = \<lparr> def_name = ''testem'', def_path = Some ''/tmp/user_data_dir-abc'', isTestemContent = True \<rparr>"

definition locked_def :: cleanup_def where
  "locked_def = \<lparr> def_name = ''locked'', def_path = Some ''/locked'', isTestemContent = False \<rparr>"

definition coverage_def :: cleanup_def where
  "coverage_def = \<lparr> def_name = ''coverage'', def_path = Some ''/tmp/coverage-abc'', isTestemContent = False \<rparr>"

definition missing_def :: cleanup_def where
  "missing_def = \<lparr> def_name = ''instrumented'', def_path = Some ''/tmp/instrumented-abc'', isTestemContent = False \<rparr>"


definition browser_def :: cleanup_def where
  "browser_def = \<lparr> def_name = ''browser'', def_path = Some ''/tmp/browser-abc'', isTestemContent = True \<rparr>"

text \<open>
  The same surroundings with a resolver that throws, with a temporary directory that
  cannot be read, and with a leftover \<open>Temp-1234\<close> that cannot be removed.
\<close>

definition unresolvable_env :: "string list cleanup_env" where
  "unresolvable_env =
     example_cleanup_env\<lparr> resolveFluidModulePathSafely := (\<lambda>p. Inl (Failure ''cannot resolve'')) \<rparr>"

definition unreadable_env :: "string list cleanup_env" where
  "unreadable_env = example_cleanup_env\<lparr> readdirSync := (\<lambda>fs d. Inl (Failure ''EACCES'')) \<rparr>"

definition stuck_temp_env :: "string list cleanup_env" where
  "stuck_temp_env =
     example_cleanup_env\<lparr> rimraf := (\<lambda>fs p. if p = ''/tmp/Temp-1234'' then (Some (Failure ''EPERM''), fs)
                                              else (None, removeAll p fs)) \<rparr>"

text \<open>And with a \<^verbatim>\<open>rimraf\<close> that removes everything.\<close>

definition willing_env :: "string list cleanup_env" where
  "willing_env = example_cleanup_env\<lparr> rimraf := (\<lambda>fs p. (None, removeAll p fs)) \<rparr>"

section \<open>The Testem component: \<^verbatim>\<open>instrumentSource\<close>\<close>

text \<open>
  Here the promises are kept as they are, since the claim is about what is pending when.
  The handlers on the promise of the sequence are the two that \<^verbatim>\<open>instrumentSource\<close> queues
  and, behind them, those of whoever holds the promise it returns (the transform chain),
  numbered.
\<close>

datatype instr_handler = Finished | InstrumentationError | Consumer nat

text \<open>
  \<^verbatim>\<open>gpii.testem.expandPath\<close>, \<^verbatim>\<open>gpii.testem.resolvePackageOrCwdRelativePath\<close> and
  \<^verbatim>\<open>gpii.testem.extractLastContentSegment\<close> are not among the sources, and
  \<^verbatim>\<open>fluid.module.resolvePath\<close> is Infusion's: parameters, the two resolvers returning a path or
  throwing. \<open>filePath\<close> reads the member of that name of an expanded definition.
\<close>

record ('d, 'e) instr_env =
  instr_expandPath :: "'d \<Rightarrow> 'e"
  instr_resolvePath :: "string option \<Rightarrow> js_error + string"
  resolvePackageOrCwdRelativePath :: "string \<Rightarrow> string \<Rightarrow> js_error + string"
  filePath :: "'e \<Rightarrow> string"
  extractLastContentSegment :: "'e \<Rightarrow> string"

text \<open>\<^verbatim>\<open>that.options.sourceDirs\<close>, \<^verbatim>\<open>that.options.instrumentedSourceDir\<close> and \<^verbatim>\<open>that.options.cwd\<close>.\<close>

record 'd instr_options =
  opt_sourceDirs :: "(string \<times> 'd) list"
  opt_instrumentedSourceDir :: "string option"
  opt_cwd :: "string option"

text \<open>
  The state of one instrumentation pass. \<open>sources\<close> is the array \<^verbatim>\<open>promises\<close>: for every
  source directory, in order, the resolved source path and the expanded definition that
  its function closes over. \<open>index\<close> and \<open>returns\<close> are the sequencer's. \<open>in_flight\<close> are the
  calls of \<^verbatim>\<open>gpii.testem.instrumenter.instrument\<close> whose promise is pending, each with its
  position, source path and instrumented path; \<open>begun\<close> lists every call made, in order.
  \<open>instr_raised\<close> collects what was thrown into the caller of an event, \<open>consumed\<close> the calls
  of the holder's handlers.
\<close>

record 'e instrumenting =
  sources :: "(string \<times> 'e) list"
  resolvedInstrumentationDir :: string
  index :: nat
  returns :: "jsval list"
  in_flight :: "(nat \<times> string \<times> string) list"
  begun :: "(string \<times> string) list"
  sequence :: "(instr_handler, jsval) promise"
  instr_log :: "log_line list"
  instr_raised :: "js_error list"
  consumed :: "(nat \<times> jsval) list"

text \<open>
  Calling the handlers a settlement hands back, in order. The rejection handler of
  \<^verbatim>\<open>instrumentSource\<close> logs at level \<open>FAIL\<close> and calls \<^verbatim>\<open>fluid.fail(error)\<close>, which raises: the
  handlers queued behind it are not called.
\<close>

fun call_instr_handlers :: "'e instrumenting \<Rightarrow> (instr_handler \<times> jsval) list \<Rightarrow> 'e instrumenting" where
  "call_instr_handlers st [] = st"
| "call_instr_handlers st ((Finished, v) # hs) =
     call_instr_handlers (st\<lparr> instr_log := instr_log st @ [(INFO, [Txt ''Finished instrumentation...''])] \<rparr>) hs"
| "call_instr_handlers st ((InstrumentationError, error) # hs) =
     st\<lparr> instr_log := instr_log st @
            [(FAIL, [Txt (''Instrumentation error:'' @ [CHR 0x0A]), Err (Reason error)])],
         instr_raised := instr_raised st @ [FluidFail (Reason error)] \<rparr>"
| "call_instr_handlers st ((Consumer n, v) # hs) =
     call_instr_handlers (st\<lparr> consumed := consumed st @ [(n, v)] \<rparr>) hs"

definition settle_sequence ::
  "(js_error + (instr_handler, jsval) promise \<times> (instr_handler \<times> jsval) list) \<Rightarrow> 'e instrumenting \<Rightarrow> 'e instrumenting" where
  "settle_sequence r st =
     (case r of
        Inl e \<Rightarrow> st\<lparr> instr_raised := instr_raised st @ [e] \<rparr>
      | Inr (p, hs) \<Rightarrow> call_instr_handlers (st\<lparr> sequence := p \<rparr>) hs)"

text \<open>
  \<^verbatim>\<open>fluid.promise.resumeSequence\<close> (Infusion): past the last source the promise of the
  sequence is resolved with the values collected; otherwise the next function is called,
  here the one \<^verbatim>\<open>instrumentSource\<close> pushed: it computes the instrumented path, which may
  throw, and calls the instrumenter, whose promise is pending when it comes back and gets
  the sequencer's two handlers.
\<close>

definition resumeSequence :: "('d, 'e) instr_env \<Rightarrow> 'e instrumenting \<Rightarrow> 'e instrumenting" where
  "resumeSequence env st =
     (if index st = length (sources st)
      then settle_sequence (promise_resolve (JArr (returns st)) (sequence st)) st
      else (let (resolvedSourcePath, sourcePathDef) = sources st ! index st;
                lastDirSegment = extractLastContentSegment env sourcePathDef
            in case resolvePackageOrCwdRelativePath env (resolvedInstrumentationDir st) lastDirSegment of
                 Inl e \<Rightarrow> st\<lparr> instr_raised := instr_raised st @ [e] \<rparr>
               | Inr instrumentedPath \<Rightarrow>
                   st\<lparr> begun := begun st @ [(resolvedSourcePath, instrumentedPath)],
                       in_flight := in_flight st @ [(index st, resolvedSourcePath, instrumentedPath)] \<rparr>))"

text \<open>\<^verbatim>\<open>fluid.promise.progressSequence\<close> and \<^verbatim>\<open>fluid.promise.processSequenceReject\<close> (Infusion).\<close>

definition progressSequence :: "('d, 'e) instr_env \<Rightarrow> jsval \<Rightarrow> 'e instrumenting \<Rightarrow> 'e instrumenting" where
  "progressSequence env retValue st =
     resumeSequence env (st\<lparr> returns := returns st @ [retValue], index := Suc (index st) \<rparr>)"

definition processSequenceReject :: "jsval \<Rightarrow> 'e instrumenting \<Rightarrow> 'e instrumenting" where
  "processSequenceReject error st = settle_sequence (promise_reject error (sequence st)) st"

text \<open>
  The loop of \<^verbatim>\<open>instrumentSource\<close> that resolves every source path before the sequence
  starts; the first path that does not resolve ends it.
\<close>

fun resolve_sources ::
  "('d, 'e) instr_env \<Rightarrow> string \<Rightarrow> (string \<times> 'e) list \<Rightarrow> js_error + (string \<times> 'e) list" where
  "resolve_sources env resolvedCwd [] = Inr []"
| "resolve_sources env resolvedCwd ((key, sourcePathDef) # defs) =
     (case resolvePackageOrCwdRelativePath env resolvedCwd (filePath env sourcePathDef) of
        Inl e \<Rightarrow> Inl e
      | Inr resolvedSourcePath \<Rightarrow>
          (case resolve_sources env resolvedCwd defs of
             Inl e \<Rightarrow> Inl e
           | Inr rest \<Rightarrow> Inr ((resolvedSourcePath, sourcePathDef) # rest)))"

text \<open>
  \<^verbatim>\<open>gpii.testem.coverage.instrumentSource\<close>: the state when it returns the promise of the
  sequence, or what it throws. An exception in the first function of the sequence leaves
  \<^verbatim>\<open>fluid.promise.sequence\<close> and with it \<^verbatim>\<open>instrumentSource\<close>.
\<close>

definition instrumentSource :: "('d, 'e) instr_env \<Rightarrow> 'd instr_options \<Rightarrow> js_error + 'e instrumenting" where
  "instrumentSource env options =
     (let expandedDefs = fluid_transform (instr_expandPath env) (opt_sourceDirs options)
      in case instr_resolvePath env (opt_instrumentedSourceDir options) of Inl e \<Rightarrow> Inl e | Inr dir \<Rightarrow>
         (case instr_resolvePath env (opt_cwd options) of Inl e \<Rightarrow> Inl e | Inr resolvedCwd \<Rightarrow>
          (case resolve_sources env resolvedCwd expandedDefs of Inl e \<Rightarrow> Inl e | Inr promises \<Rightarrow>
           (let st = resumeSequence env
                       \<lparr> sources = promises, resolvedInstrumentationDir = dir, index = 0, returns = [],
                         in_flight = [], begun = [], sequence = fluid_promise,
                         instr_log = [(INFO, [Txt ''Instrumenting source.''])],
                         instr_raised = [], consumed = [] \<rparr>
            in case instr_raised st of
                 e # es \<Rightarrow> Inl e
               | [] \<Rightarrow>
                   (let (p, now) = promise_then Finished InstrumentationError (sequence st)
                    in Inr (call_instr_handlers (st\<lparr> sequence := p \<rparr>) now))))))"

text \<open>
  What can happen afterwards: the instrumenter resolves or rejects the promise of the call
  at a position, or the holder of the returned promise queues handlers. An event for a
  call that is not in flight changes nothing.
\<close>

datatype instr_event =
    InstrumentResolves nat jsval
  | InstrumentRejects nat jsval
  | Consumes nat

definition landed :: "nat \<Rightarrow> 'e instrumenting \<Rightarrow> 'e instrumenting" where
  "landed i st = st\<lparr> in_flight := filter (\<lambda>c. fst c \<noteq> i) (in_flight st) \<rparr>"

fun instr_step :: "('d, 'e) instr_env \<Rightarrow> 'e instrumenting \<Rightarrow> instr_event \<Rightarrow> 'e instrumenting" where
  "instr_step env st (InstrumentResolves i v) =
     (if i \<in> fst ` set (in_flight st) then progressSequence env v (landed i st) else st)"
| "instr_step env st (InstrumentRejects i r) =
     (if i \<in> fst ` set (in_flight st) then processSequenceReject r (landed i st) else st)"
| "instr_step env st (Consumes n) =
     (let (p, now) = promise_then (Consumer n) (Consumer n) (sequence st)
      in call_instr_handlers (st\<lparr> sequence := p \<rparr>) now)"

definition instr_run :: "('d, 'e) instr_env \<Rightarrow> 'e instrumenting \<Rightarrow> instr_event list \<Rightarrow> 'e instrumenting" where
  "instr_run env st evs = foldl (instr_step env) st evs"

subsection \<open>An example pass\<close>

text \<open>
  Three source directories whose definitions are their paths; paths resolve by joining
  with a slash; the last segment of a path names the instrumented copy.
\<close>

definition example_instr_env :: "(string, string) instr_env" where
  "example_instr_env =
     \<lparr> instr_expandPath = (\<lambda>d. d),
       instr_resolvePath = (\<lambda>p. case p of Some q \<Rightarrow> Inr q | None \<Rightarrow> Inl TypeError),
       resolvePackageOrCwdRelativePath = (\<lambda>base p. Inr (base @ ''/'' @ p)),
       filePath = (\<lambda>d. d),
       extractLastContentSegment = (\<lambda>d. last (split CHR ''/'' d)) \<rparr>"

definition example_instr_options :: "string instr_options" where
  "example_instr_options =
     \<lparr> opt_sourceDirs = [(''src'', ''src''), (''lib'', ''vendor/lib''), (''extra'', ''extra'')],
       opt_instrumentedSourceDir = Some ''/tmp/instrumented-abc'',
       opt_cwd = Some ''/work'' \<rparr>"

text \<open>The state in which \<^verbatim>\<open>instrumentSource\<close> returns for the example.\<close>

definition example_pass :: "string instrumenting" where
  "example_pass =
     \<lparr> sources = [(''/work/src'', ''src''), (''/work/vendor/lib'', ''vendor/lib''), (''/work/extra'', ''extra'')],
       resolvedInstrumentationDir = ''/tmp/instrumented-abc'', index = 0, returns = [],
       in_flight = [(0, ''/work/src'', ''/tmp/instrumented-abc/src'')],
       begun = [(''/work/src'', ''/tmp/instrumented-abc/src'')],
       sequence = \<lparr> disposition = Pending, onResolve = [Finished], onReject = [InstrumentationError] \<rparr>,
       instr_log = [(INFO, [Txt ''Instrumenting source.''])],
       instr_raised = [], consumed = [] \<rparr>"

subsection \<open>Vocabulary for the statements about the pass\<close>

text \<open>
  What holds of a pass at every moment: the calls begun are the sources in order, up to
  some position; a pending sequence has the rejection handler of \<^verbatim>\<open>instrumentSource\<close> first
  in its queue; and either nothing is in flight, or exactly the call at \<open>index\<close>, which is
  the last one begun, with the sequence pending.
\<close>

definition instr_inv :: "(string \<times> 'e) list \<Rightarrow> 'e instrumenting \<Rightarrow> bool" where
  "instr_inv srcs st =
     (sources st = srcs \<and>
      map fst (begun st) = take (length (begun st)) (map fst srcs) \<and>
      (disposition (sequence st) = Pending \<longrightarrow>
         onReject (sequence st) \<noteq> [] \<and> hd (onReject (sequence st)) = InstrumentationError) \<and>
      (in_flight st = [] \<or>
       (\<exists>dst. in_flight st = [(index st, fst (srcs ! index st), dst)] \<and>
              index st < length srcs \<and>
              disposition (sequence st) = Pending \<and>
              length (begun st) = Suc (index st) \<and>
              last (begun st) = (fst (srcs ! index st), dst))))"

section \<open>The start-up chain of the component\<close>

text \<open>An error as the value a rejection handler receives.\<close>

fun error_value :: "js_error \<Rightarrow> jsval" where
  "error_value (Reason v) = v"
| "error_value TypeError = JObj [(''name'', JStr ''TypeError'')]"
| "error_value SyntaxError = JObj [(''name'', JStr ''SyntaxError'')]"
| "error_value (Failure message) = JObj [(''message'', JStr message)]"
| "error_value (FluidFail e) = error_value e"

text \<open>What a transform chain sees of a call whose promise came to the given outcome.\<close>

fun as_called :: "outcome \<Rightarrow> called" where
  "as_called Resolved = Promised (Resolve Undefined)"
| "as_called (Rejected e) = Promised (Reject (error_value e))"
| "as_called (Thrown e) = Threw e"

text \<open>
  \<^verbatim>\<open>gpii.testem.dirs.onlyTestemContent\<close>, the default of \<^verbatim>\<open>cleanup.initial\<close> and \<^verbatim>\<open>cleanup.final\<close>
  in the grade \<^verbatim>\<open>gpii.testem.base\<close>; its path is the option \<^verbatim>\<open>testemDir\<close>.
\<close>

definition onlyTestemContent :: "dir_env \<Rightarrow> string \<Rightarrow> cleanup_def list" where
  "onlyTestemContent env ident =
     [\<lparr> def_name = ''testem'', def_path = testemDir env ident, isTestemContent = True \<rparr>]"

text \<open>
  The listeners of \<^verbatim>\<open>onTestemStart\<close> in the grade \<^verbatim>\<open>gpii.testem.base\<close>, in the order of their
  priorities: \<^verbatim>\<open>gpii.testem.cleanup\<close> with \<^verbatim>\<open>"Initial"\<close> and \<^verbatim>\<open>cleanup.initial\<close>, then
  \<^verbatim>\<open>constructFixtures.fire\<close>, then \<^verbatim>\<open>gpii.testem.wrapSecondaryEvent\<close> for
  \<^verbatim>\<open>onFixturesConstructed\<close>, which returns its event promise.
\<close>

definition onTestemStart ::
  "'fs cleanup_env \<Rightarrow> component \<Rightarrow> (string \<times> listener list) list \<Rightarrow> 'fs cleaning \<Rightarrow> called list" where
  "onTestemStart env that event_listeners st =
     [as_called (fst (cleanup env ''Initial''
                        (onlyTestemContent (dir_env.truncate env) (component_id that)) st)),
      Returned Undefined,
      Promised (disposition (eventPromise (wrapSecondaryEvent that ''onFixturesConstructed'' event_listeners)))]"

section \<open>Proofs: the coverage receiver\<close>

lemma rx_match_keeps:
  "(rest, m) \<in> set (rx_match r s cp) \<Longrightarrow> i \<notin> groups r \<Longrightarrow> m i = cp i"
proof (induction r arbitrary: s cp rest m)
  case (Str l)
  then show ?case by (simp split: if_splits)
next
  case (One c)
  then show ?case by (auto simp del: in_cset.simps split: list.splits if_splits)
next
  case (Plus c)
  then show ?case by (auto simp del: in_cset.simps)
next
  case (Star c)
  then show ?case by (auto simp del: in_cset.simps)
next
  case (StarLazy c)
  then show ?case by (auto simp del: in_cset.simps)
next
  case (Cat a b)
  from Cat.prems(1) obtain r1 c1 where "(r1, c1) \<in> set (rx_match a s cp)"
    and "(rest, m) \<in> set (rx_match b r1 c1)" by auto
  with Cat.IH Cat.prems(2) show ?case by (metis UnCI groups.simps(1))
next
  case (Alt a b)
  then show ?case by auto
next
  case Eps
  then show ?case by simp
next
  case (Grp j a)
  then show ?case by auto
qed

lemma rx_exec_SomeD:
  "rx_exec r s = Some m \<Longrightarrow> \<exists>k rest. (rest, m) \<in> set (rx_match r (drop k s) Map.empty)"
proof (induction s)
  case Nil
  then show ?case by (auto split: list.splits)
next
  case (Cons x xs)
  show ?case
  proof (cases "rx_match r (x # xs) Map.empty")
    case Nil
    with Cons obtain k rest where "(rest, m) \<in> set (rx_match r (drop k xs) Map.empty)" by auto
    then have "(rest, m) \<in> set (rx_match r (drop (Suc k) (x # xs)) Map.empty)" by simp
    then show ?thesis by blast
  next
    case (Cons p ps)
    with Cons.prems have "(fst p, m) \<in> set (rx_match r (drop 0 (x # xs)) Map.empty)"
      by (cases p) auto
    then show ?thesis by blast
  qed
qed

lemma literal_group:
  assumes "(rest, m) \<in> set (rx_match (Cat (Grp i (Str tok)) r) s cp)" and "i \<notin> groups r"
  shows "m i = Some tok"
proof -
  from assms(1) obtain r1 c1 where a: "(r1, c1) \<in> set (rx_match (Grp i (Str tok)) s cp)"
    and b: "(rest, m) \<in> set (rx_match r r1 c1)" by (auto simp del: rx_match.simps(1,9))
  from a have t: "take (length tok) s = tok" and c: "c1 = cp(i \<mapsto> take (length s - length (drop (length tok) s)) s)"
    by (auto split: if_splits)
  from arg_cong[OF t, of length] have "length tok \<le> length s" by simp
  with t c have "c1 i = Some tok" by simp
  with rx_match_keeps[OF b assms(2)] show ?thesis by simp
qed

lemma plus_group:
  assumes "(rest, m) \<in> set (rx_match (Grp i (Plus c)) s cp)"
  shows "\<exists>v. m i = Some v \<and> v \<noteq> [] \<and> (\<forall>x\<in>set v. in_cset c x)"
proof -
  from assms obtain k where k: "1 \<le> k" "k \<le> length (takeWhile (in_cset c) s)"
    and m: "m = cp(i \<mapsto> take (length s - length (drop k s)) s)" by auto
  have le: "length (takeWhile (in_cset c) s) \<le> length s" by (rule length_takeWhile_le)
  with k have ks: "k \<le> length s" by simp
  then have mi: "m i = Some (take k s)" using m by simp
  have "take k s = take k (takeWhile (in_cset c) s)"
    using k(2) by (metis append_eq_conv_conj takeWhile_dropWhile_id take_append diff_is_0_eq take_0 append_Nil2 take_take min.absorb1)
  then have "\<forall>x\<in>set (take k s). in_cset c x"
    by (metis in_set_takeD set_takeWhileD)
  moreover have "take k s \<noteq> []" using k ks by (cases s) auto
  ultimately show ?thesis using mi by blast
qed

lemma cat_tail:
  "(rest, m) \<in> set (rx_match (Cat a b) s cp) \<Longrightarrow> \<exists>r1 c1. (rest, m) \<in> set (rx_match b r1 c1)"
  by auto

lemma chrome_groups:
  assumes "rx_exec chrome_rx s = Some m"
  shows "m 1 = Some ''chrome'' \<and> versioned m"
proof -
  from rx_exec_SomeD[OF assms] obtain k rest where
    r: "(rest, m) \<in> set (rx_match chrome_rx (drop k s) Map.empty)" by blast
  have "m 1 = Some ''chrome''"
    using r unfolding chrome_rx_def by (rule literal_group) simp
  moreover from r obtain r1 c1 where "(rest, m) \<in> set (rx_match (Cat (One (Among '' /'')) (Grp 2 (Plus WordOrDot))) r1 c1)"
    unfolding chrome_rx_def using cat_tail by blast
  then obtain r2 c2 where "(rest, m) \<in> set (rx_match (Grp 2 (Plus WordOrDot)) r2 c2)"
    using cat_tail by blast
  from plus_group[OF this] have "versioned m" unfolding versioned_def .
  ultimately show ?thesis by simp
qed

lemma webkit_groups:
  assumes "rx_exec webkit_rx s = Some m"
  shows "m 1 = Some ''webkit'' \<and> versioned m"
proof -
  from rx_exec_SomeD[OF assms] obtain k rest where
    r: "(rest, m) \<in> set (rx_match webkit_rx (drop k s) Map.empty)" by blast
  have "m 1 = Some ''webkit''"
    using r unfolding webkit_rx_def by (rule literal_group) simp
  moreover from r obtain r1 c1 where "(rest, m) \<in> set (rx_match (Cat (One (Among '' /'')) (Grp 2 (Plus WordOrDot))) r1 c1)"
    unfolding webkit_rx_def using cat_tail by blast
  then obtain r2 c2 where "(rest, m) \<in> set (rx_match (Grp 2 (Plus WordOrDot)) r2 c2)"
    using cat_tail by blast
  from plus_group[OF this] have "versioned m" unfolding versioned_def .
  ultimately show ?thesis by simp
qed

lemma opera_groups:
  assumes "rx_exec opera_rx s = Some m"
  shows "m 1 = Some ''opera'' \<and> versioned m"
proof -
  from rx_exec_SomeD[OF assms] obtain k rest where
    r: "(rest, m) \<in> set (rx_match opera_rx (drop k s) Map.empty)" by blast
  have "m 1 = Some ''opera''"
    using r unfolding opera_rx_def by (rule literal_group) simp
  moreover from r obtain r1 c1 where "(rest, m) \<in> set (rx_match (Cat (Alt (Cat (Star Dot) (Str ''version'')) Eps)
       (Cat (One (Among '' /'')) (Grp 2 (Plus WordOrDot)))) r1 c1)"
    unfolding opera_rx_def using cat_tail by blast
  then obtain r2 c2 where "(rest, m) \<in> set (rx_match (Cat (One (Among '' /'')) (Grp 2 (Plus WordOrDot))) r2 c2)"
    using cat_tail by blast
  then obtain r3 c3 where "(rest, m) \<in> set (rx_match (Grp 2 (Plus WordOrDot)) r3 c3)"
    using cat_tail by blast
  from plus_group[OF this] have "versioned m" unfolding versioned_def .
  ultimately show ?thesis by simp
qed

lemma msie_groups:
  assumes "rx_exec msie_rx s = Some m"
  shows "m 1 = Some ''msie'' \<and> versioned m"
proof -
  from rx_exec_SomeD[OF assms] obtain k rest where
    r: "(rest, m) \<in> set (rx_match msie_rx (drop k s) Map.empty)" by blast
  have "m 1 = Some ''msie''"
    using r unfolding msie_rx_def by (rule literal_group) simp
  moreover from r obtain r1 c1 where "(rest, m) \<in> set (rx_match (Cat (Str '' '') (Grp 2 (Plus WordOrDot))) r1 c1)"
    unfolding msie_rx_def using cat_tail by blast
  then obtain r2 c2 where "(rest, m) \<in> set (rx_match (Grp 2 (Plus WordOrDot)) r2 c2)"
    using cat_tail by blast
  from plus_group[OF this] have "versioned m" unfolding versioned_def .
  ultimately show ?thesis by simp
qed

lemma mozilla_groups:
  assumes "rx_exec mozilla_rx s = Some m"
  shows "m 1 = Some ''mozilla''"
proof -
  from rx_exec_SomeD[OF assms] obtain k rest where
    r: "(rest, m) \<in> set (rx_match mozilla_rx (drop k s) Map.empty)" by blast
  show "m 1 = Some ''mozilla''"
    using r unfolding mozilla_rx_def by (rule literal_group) simp
qed

lemma group_or_name: "m 1 = Some (c # cs) \<Longrightarrow> group_or m 1 d = c # cs"
  by (simp add: group_or_def)

lemma group_or_version: "versioned m \<Longrightarrow> group_or m 2 d \<noteq> [] \<and> (\<forall>x\<in>set (group_or m 2 d). in_cset WordOrDot x)"
  by (auto simp: group_or_def versioned_def)

lemma uaMatch_order:
  "\<exists>b. uaMatch (JStr ua) = Inr b \<and>
     (let s = toLowerCase ua in
      (rx_exec chrome_rx s \<noteq> None \<longrightarrow> name b = ''chrome'' \<and> known_version b) \<and>
      (rx_exec chrome_rx s = None \<and> rx_exec webkit_rx s \<noteq> None \<longrightarrow>
         name b = ''webkit'' \<and> known_version b) \<and>
      (rx_exec chrome_rx s = None \<and> rx_exec webkit_rx s = None \<and> rx_exec opera_rx s \<noteq> None \<longrightarrow>
         name b = ''opera'' \<and> known_version b) \<and>
      (rx_exec chrome_rx s = None \<and> rx_exec webkit_rx s = None \<and> rx_exec opera_rx s = None \<and>
       rx_exec msie_rx s \<noteq> None \<longrightarrow> name b = ''msie'' \<and> known_version b) \<and>
      (rx_exec chrome_rx s = None \<and> rx_exec webkit_rx s = None \<and> rx_exec opera_rx s = None \<and>
       rx_exec msie_rx s = None \<and> indexOf s ''compatible'' < 0 \<and> rx_exec mozilla_rx s \<noteq> None \<longrightarrow>
         name b = ''mozilla'') \<and>
      (rx_exec chrome_rx s = None \<and> rx_exec webkit_rx s = None \<and> rx_exec opera_rx s = None \<and>
       rx_exec msie_rx s = None \<and> (0 \<le> indexOf s ''compatible'' \<or> rx_exec mozilla_rx s = None) \<longrightarrow>
         b = \<lparr> name = ''unknown'', version = ''0'' \<rparr>))"
proof -
  define s where "s = toLowerCase ua"
  define b where "b = \<lparr> name = group_or (ua_groups s) 1 ''unknown'', version = group_or (ua_groups s) 2 ''0'' \<rparr>"
  have ua: "uaMatch (JStr ua) = Inr b" by (simp add: b_def s_def Let_def)
  have kv: "known_version b" if "versioned (ua_groups s)"
    using group_or_version[OF that] by (simp add: b_def known_version_def)
  have c1: "name b = ''chrome'' \<and> known_version b" if "rx_exec chrome_rx s \<noteq> None"
  proof -
    from that obtain m where m: "rx_exec chrome_rx s = Some m" by blast
    then have "ua_groups s = m" by (simp add: ua_groups_def)
    with chrome_groups[OF m] kv show ?thesis by (simp add: b_def group_or_def)
  qed
  have c2: "name b = ''webkit'' \<and> known_version b"
    if "rx_exec chrome_rx s = None" "rx_exec webkit_rx s \<noteq> None"
  proof -
    from that obtain m where m: "rx_exec webkit_rx s = Some m" by blast
    with that have "ua_groups s = m" by (simp add: ua_groups_def)
    with webkit_groups[OF m] kv show ?thesis by (simp add: b_def group_or_def)
  qed
  have c3: "name b = ''opera'' \<and> known_version b"
    if "rx_exec chrome_rx s = None" "rx_exec webkit_rx s = None" "rx_exec opera_rx s \<noteq> None"
  proof -
    from that obtain m where m: "rx_exec opera_rx s = Some m" by blast
    with that have "ua_groups s = m" by (simp add: ua_groups_def)
    with opera_groups[OF m] kv show ?thesis by (simp add: b_def group_or_def)
  qed
  have c4: "name b = ''msie'' \<and> known_version b"
    if "rx_exec chrome_rx s = None" "rx_exec webkit_rx s = None" "rx_exec opera_rx s = None"
       "rx_exec msie_rx s \<noteq> None"
  proof -
    from that obtain m where m: "rx_exec msie_rx s = Some m" by blast
    with that have "ua_groups s = m" by (simp add: ua_groups_def)
    with msie_groups[OF m] kv show ?thesis by (simp add: b_def group_or_def)
  qed
  have c5: "name b = ''mozilla''"
    if "rx_exec chrome_rx s = None" "rx_exec webkit_rx s = None" "rx_exec opera_rx s = None"
       "rx_exec msie_rx s = None" "indexOf s ''compatible'' < 0" "rx_exec mozilla_rx s \<noteq> None"
  proof -
    from that obtain m where m: "rx_exec mozilla_rx s = Some m" by blast
    with that have "ua_groups s = m" by (simp add: ua_groups_def)
    with mozilla_groups[OF m] show ?thesis by (simp add: b_def group_or_def)
  qed
  have c6: "b = \<lparr> name = ''unknown'', version = ''0'' \<rparr>"
    if "rx_exec chrome_rx s = None" "rx_exec webkit_rx s = None" "rx_exec opera_rx s = None"
       "rx_exec msie_rx s = None" "0 \<le> indexOf s ''compatible'' \<or> rx_exec mozilla_rx s = None"
  proof -
    from that have "ua_groups s = Map.empty" by (auto simp: ua_groups_def)
    then show ?thesis by (simp add: b_def group_or_def)
  qed
  show ?thesis
    unfolding Let_def s_def[symmetric]
    by (rule exI[of _ b]) (use ua c1 c2 c3 c4 c5 c6 in blast)
qed

lemma uaMatch_chrome91:
  "uaMatch (JStr chrome91_ua) = Inr \<lparr> name = ''chrome'', version = ''91.0.4472.124'' \<rparr>"
  by code_simp

lemma uaMatch_chrome91_elided:
  "uaMatch (JStr ''Mozilla/5.0 ... Chrome/91.0.4472.124 ...'') =
     Inr \<lparr> name = ''chrome'', version = ''91.0.4472.124'' \<rparr>"
  by code_simp

lemma uaMatch_msie9:
  "uaMatch (JStr msie9_ua) = Inr \<lparr> name = ''msie'', version = ''9.0'' \<rparr>"
  by code_simp

lemma uaMatch_msie9_elided:
  "uaMatch (JStr ''Mozilla/5.0 (compatible; MSIE 9.0; ...)'') =
     Inr \<lparr> name = ''msie'', version = ''9.0'' \<rparr>"
  by code_simp

lemma uaMatch_somebot:
  "uaMatch (JStr ''SomeBot/1.0'') = Inr \<lparr> name = ''unknown'', version = ''0'' \<rparr>"
  by code_simp

text \<open>Further user agents, and values that are not strings.\<close>

lemma uaMatch_firefox:
  "uaMatch (JStr ''Mozilla/5.0 (X11; Linux x86_64; rv:89.0) Gecko/20100101 Firefox/89.0'') =
     Inr \<lparr> name = ''mozilla'', version = ''89.0'' \<rparr>"
  by code_simp

lemma uaMatch_opera:
  "uaMatch (JStr ''Opera/9.80 (Windows NT 6.1) Presto/2.12.388 Version/12.16'') =
     Inr \<lparr> name = ''opera'', version = ''12.16'' \<rparr>"
  by code_simp

lemma uaMatch_safari:
  "uaMatch (JStr safari_ua) = Inr \<lparr> name = ''webkit'', version = ''605.1.15'' \<rparr>"
  by code_simp

lemma uaMatch_compatible:
  "uaMatch (JStr ''Mozilla/4.0 (compatible; Konqueror)'') = Inr \<lparr> name = ''unknown'', version = ''0'' \<rparr>"
  by code_simp

lemma uaMatch_mozilla_plain:
  "uaMatch (JStr ''Mozilla/4.0 (X11)'') = Inr \<lparr> name = ''mozilla'', version = ''0'' \<rparr>"
  by code_simp

lemma uaMatch_empty:
  "uaMatch (JStr []) = Inr \<lparr> name = ''unknown'', version = ''0'' \<rparr>"
  by code_simp

lemma uaMatch_not_a_string:
  "uaMatch Undefined = Inl TypeError" "uaMatch Null = Inl TypeError" "uaMatch (JNum 0) = Inl TypeError"
  by simp_all

lemma safari_not_chrome: "rx_exec chrome_rx (toLowerCase safari_ua) = None"
  by code_simp

lemma safari_webkit: "rx_exec webkit_rx (toLowerCase safari_ua) \<noteq> None"
  by code_simp

text \<open>
  Claim C5. \<^verbatim>\<open>uaMatch\<close> returns for every string; the name it returns is that of the first
  of the patterns Chrome, WebKit, Opera, MSIE, Mozilla that matches the lower-cased
  string, the Mozilla pattern counting only when the string does not contain
  \<^verbatim>\<open>compatible\<close>; for the first four the version is the non-empty run of \<^verbatim>\<open>[\w.]\<close> the
  pattern captured; when none matches the result is \<^verbatim>\<open>{name: "unknown", version: "0"}\<close>.
  A Chrome 91 user agent gives \<^verbatim>\<open>chrome\<close> and \<^verbatim>\<open>91.0.4472.124\<close>, an Internet Explorer 9 one
  \<^verbatim>\<open>msie\<close> and \<^verbatim>\<open>9.0\<close>, and \<^verbatim>\<open>SomeBot/1.0\<close> the unknown browser.
\<close>

theorem uaMatch_first_match_wins:
  "(\<exists>b. uaMatch (JStr ua) = Inr b \<and>
     (let s = toLowerCase ua in
      (rx_exec chrome_rx s \<noteq> None \<longrightarrow> name b = ''chrome'' \<and> known_version b) \<and>
      (rx_exec chrome_rx s = None \<and> rx_exec webkit_rx s \<noteq> None \<longrightarrow>
         name b = ''webkit'' \<and> known_version b) \<and>
      (rx_exec chrome_rx s = None \<and> rx_exec webkit_rx s = None \<and> rx_exec opera_rx s \<noteq> None \<longrightarrow>
         name b = ''opera'' \<and> known_version b) \<and>
      (rx_exec chrome_rx s = None \<and> rx_exec webkit_rx s = None \<and> rx_exec opera_rx s = None \<and>
       rx_exec msie_rx s \<noteq> None \<longrightarrow> name b = ''msie'' \<and> known_version b) \<and>
      (rx_exec chrome_rx s = None \<and> rx_exec webkit_rx s = None \<and> rx_exec opera_rx s = None \<and>
       rx_exec msie_rx s = None \<and> indexOf s ''compatible'' < 0 \<and> rx_exec mozilla_rx s \<noteq> None \<longrightarrow>
         name b = ''mozilla'') \<and>
      (rx_exec chrome_rx s = None \<and> rx_exec webkit_rx s = None \<and> rx_exec opera_rx s = None \<and>
       rx_exec msie_rx s = None \<and> (0 \<le> indexOf s ''compatible'' \<or> rx_exec mozilla_rx s = None) \<longrightarrow>
         b = \<lparr> name = ''unknown'', version = ''0'' \<rparr>))) \<and>
   uaMatch (JStr chrome91_ua) = Inr \<lparr> name = ''chrome'', version = ''91.0.4472.124'' \<rparr> \<and>
   uaMatch (JStr ''Mozilla/5.0 ... Chrome/91.0.4472.124 ...'') =
     Inr \<lparr> name = ''chrome'', version = ''91.0.4472.124'' \<rparr> \<and>
   uaMatch (JStr msie9_ua) = Inr \<lparr> name = ''msie'', version = ''9.0'' \<rparr> \<and>
   uaMatch (JStr ''Mozilla/5.0 (compatible; MSIE 9.0; ...)'') =
     Inr \<lparr> name = ''msie'', version = ''9.0'' \<rparr> \<and>
   uaMatch (JStr ''SomeBot/1.0'') = Inr \<lparr> name = ''unknown'', version = ''0'' \<rparr>"
  using uaMatch_order [of ua] uaMatch_chrome91 uaMatch_chrome91_elided uaMatch_msie9
    uaMatch_msie9_elided uaMatch_somebot
  by (intro conjI) assumption+

theorem uaMatch_first_match_wins_witness:
  "rx_exec chrome_rx (toLowerCase safari_ua) = None \<and>
   rx_exec webkit_rx (toLowerCase safari_ua) \<noteq> None \<and>
   (\<exists>b. uaMatch (JStr safari_ua) = Inr b \<and> name b = ''webkit'' \<and> known_version b)"
  using uaMatch_first_match_wins [of safari_ua] safari_not_chrome safari_webkit
  unfolding Let_def by blast

lemma split_not_Nil: "split sep s \<noteq> []"
  by (induction s) (auto split: list.splits)

lemma split_no_sep: "sep \<notin> set s \<Longrightarrow> split sep s = [s]"
  by (induction s) auto

lemma split_append_sep:
  "\<exists>w ws. split sep (xs @ sep # ys) = w # ws \<and> ws \<noteq> [] \<and> last ws = last (split sep ys)"
proof (induction xs)
  case Nil
  show ?case by (simp add: split_not_Nil)
next
  case (Cons a xs)
  then obtain w ws where "split sep (xs @ sep # ys) = w # ws" "ws \<noteq> []"
    "last ws = last (split sep ys)" by blast
  then show ?case by simp
qed

lemma last_split_append: "last (split sep (xs @ sep # ys)) = last (split sep ys)"
proof -
  obtain w ws where "split sep (xs @ sep # ys) = w # ws" "ws \<noteq> []"
    "last ws = last (split sep ys)" using split_append_sep by blast
  then show ?thesis by simp
qed

lemma pop_split_filename:
  "sep \<notin> set file \<Longrightarrow> pop (split sep (pre @ sep # file)) = Some file"
  by (simp add: pop_def split_not_Nil last_split_append split_no_sep)

lemma testFilename_url:
  "CHR ''/'' \<notin> set file \<Longrightarrow> testFilename (JStr (pre @ CHR ''/'' # file)) = Inr file"
  by (simp add: testFilename_def pop_split_filename)

text \<open>
  When the parsed payload carries \<^verbatim>\<open>navigator.userAgent\<close>, a \<^verbatim>\<open>document.URL\<close> whose last path
  segment is \<open>file\<close>, and a \<^verbatim>\<open>coverage\<close> member, the handler writes
  \<^verbatim>\<open>JSON.stringify(coverage, null, 2)\<close> to the file
  \<^verbatim>\<open>coverage-<name>-<version>-<file>-<id>-<random>.json\<close> joined to the resolved coverage
  directory, and answers 200 with the success message when the write reports no error and
  500 with \<^verbatim>\<open>{isError: true, message: error}\<close> when it reports one.
\<close>

lemma middlewareImpl_with_userAgent_saves_coverage:
  assumes dir: "resolvePath env (coverageDir that) = Inr dir"
    and parsed: "JSON_parse env payload = Inr (JObj kvs)"
    and nav: "map_of kvs ''navigator'' = Some (JObj nav)"
    and ua: "map_of nav ''userAgent'' = Some (JStr ua)"
    and doc: "map_of kvs ''document'' = Some (JObj d)"
    and url: "map_of d ''URL'' = Some (JStr (pre @ ''/'' @ file))"
    and nosep: "CHR ''/'' \<notin> set file"
    and cov: "map_of kvs ''coverage'' = Some cov"
    and b: "uaMatch (JStr ua) = Inr b"
  shows "\<exists>h. middlewareImpl env that payload = Inr h \<and>
     written_path h = path_join env dir
        (''coverage-'' @ name b @ ''-'' @ version b @ ''-'' @ file @ ''-'' @ that_id that @ ''-'' @
         decimal (random_int env) @ ''.json'') \<and>
     written_data h = JSON_stringify env cov \<and>
     (writeFile env (written_path h) (written_data h) = None \<longrightarrow>
        sent h = \<lparr> status = 200, body = MessageBody ''You have successfully saved your coverage report.'' \<rparr>) \<and>
     (\<forall>e. writeFile env (written_path h) (written_data h) = Some e \<longrightarrow>
        sent h = \<lparr> status = 500, body = ErrorBody True e \<rparr>)"
proof -
  have g1: "fluid_get (JObj kvs) [''navigator'', ''userAgent''] = JStr ua"
    using nav ua by simp
  have g2: "js_member (JObj kvs) ''document'' = Inr (JObj d)" using doc by simp
  have g3: "fluid_get (JObj d) [''URL''] = JStr (pre @ ''/'' @ file)" using url by simp
  have g4: "js_member (JObj kvs) ''coverage'' = Inr cov" using cov by simp
  show ?thesis
    by (simp add: middlewareImpl_def dir parsed g1 g2 g3 g4 b testFilename_url[OF nosep]
        Let_def coverageFilename_def respond_def
        del: uaMatch.simps decimal.simps fluid_get.simps js_member.simps)
qed

lemma full_upload_saved:
  "(\<exists>h. middlewareImpl (example_env full_upload None) example_receiver ''payload'' = Inr h \<and>
      written_path h = ''/tmp/coverage-abc/coverage-chrome-91.0.4472.124-foo.html-abc-4711.json'' \<and>
      written_data h = Some ''{}'' \<and>
      sent h = \<lparr> status = 200,
                 body = MessageBody ''You have successfully saved your coverage report.'' \<rparr>) \<and>
   (\<exists>h. middlewareImpl (example_env full_upload (Some (Failure ''EACCES''))) example_receiver
           ''payload'' = Inr h \<and>
      written_path h = ''/tmp/coverage-abc/coverage-chrome-91.0.4472.124-foo.html-abc-4711.json'' \<and>
      sent h = \<lparr> status = 500, body = ErrorBody True (Failure ''EACCES'') \<rparr>)"
proof -
  have d: "decimal 4711 = ''4711''" by code_simp
  have u: "''http://x/tests/foo.html'' = ''http://x/tests'' @ ''/'' @ ''foo.html''" by simp
  have n: "CHR ''/'' \<notin> set ''foo.html''" by simp
  have a: "\<exists>h. middlewareImpl (example_env full_upload err) example_receiver ''payload'' = Inr h \<and>
     written_path h = path_join (example_env full_upload err) ''/tmp/coverage-abc''
        (''coverage-'' @ ''chrome'' @ ''-'' @ ''91.0.4472.124'' @ ''-'' @ ''foo.html'' @ ''-'' @ ''abc'' @ ''-'' @
         decimal (random_int (example_env full_upload err)) @ ''.json'') \<and>
     written_data h = JSON_stringify (example_env full_upload err) (JObj []) \<and>
     (writeFile (example_env full_upload err) (written_path h) (written_data h) = None \<longrightarrow>
        sent h = \<lparr> status = 200, body = MessageBody ''You have successfully saved your coverage report.'' \<rparr>) \<and>
     (\<forall>e. writeFile (example_env full_upload err) (written_path h) (written_data h) = Some e \<longrightarrow>
        sent h = \<lparr> status = 500, body = ErrorBody True e \<rparr>)" for err
    using middlewareImpl_with_userAgent_saves_coverage
      [of "example_env full_upload err" example_receiver "''/tmp/coverage-abc''" "''payload''"
          "[(''navigator'', JObj [(''userAgent'', JStr chrome91_ua)]),
            (''document'', JObj [(''URL'', JStr ''http://x/tests/foo.html'')]),
            (''coverage'', JObj [])]"
          "[(''userAgent'', JStr chrome91_ua)]" chrome91_ua
          "[(''URL'', JStr ''http://x/tests/foo.html'')]" "''http://x/tests''" "''foo.html''"
          "JObj []" "\<lparr> name = ''chrome'', version = ''91.0.4472.124'' \<rparr>"]
      uaMatch_chrome91 n
    by (simp add: example_env_def example_receiver_def full_upload_def del: uaMatch.simps)
  from a [of None] a [of "Some (Failure ''EACCES'')"] show ?thesis
    unfolding example_env_def by (simp add: d) blast
qed

section \<open>Proofs: uploads with absent members\<close>

text \<open>
  An upload without \<^verbatim>\<open>navigator\<close>, or whose \<^verbatim>\<open>navigator\<close> has no \<^verbatim>\<open>userAgent\<close>: \<^verbatim>\<open>fluid.get\<close> gives
  \<^verbatim>\<open>undefined\<close>, \<^verbatim>\<open>uaMatch\<close> throws, and the handler writes and sends nothing.
\<close>

lemma middlewareImpl_absent_userAgent:
  assumes "resolvePath env (coverageDir that) = Inr dir"
    and "JSON_parse env payload = Inr (JObj kvs)"
    and "map_of kvs ''navigator'' = None \<or>
         (map_of kvs ''navigator'' = Some (JObj nav) \<and> map_of nav ''userAgent'' = None)"
  shows "middlewareImpl env that payload = Inl TypeError"
  using assms by (auto simp: middlewareImpl_def)

text \<open>
  \<^verbatim>\<open>fluid.get\<close> on members that are absent or falsy on the way.
\<close>

lemma fluid_get_absent:
  "fluid_get (JObj [(''document'', JObj [])]) [''navigator'', ''userAgent''] = Undefined"
  "fluid_get (JObj [(''navigator'', Null)]) [''navigator'', ''userAgent''] = Undefined"
  "fluid_get (JObj [(''navigator'', JStr [])]) [''navigator'', ''userAgent''] = Undefined"
  "fluid_get (JObj [(''navigator'', JNum 0)]) [''navigator'', ''userAgent''] = Undefined"
  "fluid_get Undefined [''URL''] = Undefined"
  "fluid_get (JObj [(''URL'', JStr [])]) [''URL''] = JStr []"
  by simp_all

text \<open>
  An upload with a user agent but without \<^verbatim>\<open>document\<close>, or whose \<^verbatim>\<open>document\<close> has no \<^verbatim>\<open>URL\<close>:
  the file name is built with \<^verbatim>\<open>unknown\<close>, the file is written and the response sent.
\<close>

lemma middlewareImpl_absent_URL:
  assumes "resolvePath env (coverageDir that) = Inr dir"
    and "JSON_parse env payload = Inr (JObj kvs)"
    and "map_of kvs ''navigator'' = Some (JObj nav)"
    and "map_of nav ''userAgent'' = Some (JStr ua)"
    and "uaMatch (JStr ua) = Inr b"
    and "map_of kvs ''document'' = None \<or>
         (map_of kvs ''document'' = Some (JObj d) \<and> map_of d ''URL'' = None)"
  shows "\<exists>h. middlewareImpl env that payload = Inr h \<and>
     written_path h = path_join env dir
        (''coverage-'' @ name b @ ''-'' @ version b @ ''-'' @ ''unknown'' @ ''-'' @ that_id that @ ''-'' @
         decimal (random_int env) @ ''.json'') \<and>
     sent h = respond (writeFile env (written_path h) (written_data h))"
  using assms
  by (auto simp: middlewareImpl_def testFilename_def Let_def coverageFilename_def
      simp del: uaMatch.simps decimal.simps)

text \<open>
  Claim C4. The claim says an upload without \<^verbatim>\<open>navigator.userAgent\<close> is answered with the
  browser \<^verbatim>\<open>unknown\<close>, version \<^verbatim>\<open>0\<close>. The handler run on such an upload (a \<^verbatim>\<open>document.URL\<close> and
  a \<^verbatim>\<open>coverage\<close> member, no \<^verbatim>\<open>navigator\<close>) ends with the \<^verbatim>\<open>TypeError\<close> of
  \<^verbatim>\<open>undefined.toLowerCase()\<close>: no file name is composed, nothing is written, no response is
  sent.
\<close>

theorem middlewareImpl_without_userAgent_throws:
  "middlewareImpl (example_env upload_without_userAgent None) example_receiver ''payload'' =
     Inl TypeError"
  by (rule middlewareImpl_absent_userAgent
        [where dir = "''/tmp/coverage-abc''" and nav = "[]"
           and kvs = "[(''document'', JObj [(''URL'', JStr ''http://x/tests/foo.html'')]),
                       (''coverage'', JObj [])]"])
     (simp_all add: example_env_def example_receiver_def upload_without_userAgent_def)

text \<open>
  Claim C6. The claim says that every upload with a \<^verbatim>\<open>document.URL\<close> ending in a file name
  and a \<^verbatim>\<open>coverage\<close> object is written to a file and answered. The handler run on an upload
  with the URL \<^verbatim>\<open>http://localhost:7000/tests/bar.html\<close>, a coverage object and a
  \<^verbatim>\<open>navigator\<close> without \<^verbatim>\<open>userAgent\<close> ends with the \<^verbatim>\<open>TypeError\<close> of \<^verbatim>\<open>undefined.toLowerCase()\<close>
  before the file name is composed: nothing is written and no response is sent. With a
  user agent in the upload the handler does what the claim says
  (\<open>middlewareImpl_with_userAgent_saves_coverage\<close>).
\<close>

theorem middlewareImpl_coverage_not_saved:
  "middlewareImpl (example_env upload_with_empty_navigator None) example_receiver ''payload'' =
     Inl TypeError"
  by (rule middlewareImpl_absent_userAgent
        [where dir = "''/tmp/coverage-abc''" and nav = "[]"
           and kvs = "[(''navigator'', JObj []),
                       (''document'', JObj [(''URL'', JStr ''http://localhost:7000/tests/bar.html'')]),
                       (''coverage'', JObj [(''src/js/a.js'', JObj [])])]"])
     (simp_all add: example_env_def example_receiver_def upload_with_empty_navigator_def)

section \<open>Proofs: unique directory names\<close>

text \<open>
  Claim C10. When resolving the base path throws, \<^verbatim>\<open>generateUniqueDirName\<close> logs the error
  and returns \<^verbatim>\<open>undefined\<close>; when that happens for \<^verbatim>\<open>os.tmpdir()\<close>, the options \<^verbatim>\<open>testemDir\<close>,
  \<^verbatim>\<open>reportsDir\<close>, \<^verbatim>\<open>coverageDir\<close> and \<^verbatim>\<open>instrumentedSourceDir\<close> are all \<^verbatim>\<open>undefined\<close>.
\<close>

theorem generateUniqueDirName_swallows:
  "(resolveFluidModulePathSafely env basePath = Inl e \<longrightarrow>
      generateUniqueDirName env basePath prefix suffix =
        (None, [(INFO, [Txt ''Error generating unique dir name:'', Err e])])) \<and>
   (resolveFluidModulePathSafely env (os_tmpdir env) = Inl e \<longrightarrow>
      testemDir env ident = None \<and> reportsDir env ident = None \<and>
      coverageDirOption env ident = None \<and> instrumentedSourceDir env ident = None)"
  by (simp add: generateUniqueDirName_def testemDir_def reportsDir_def coverageDirOption_def
      instrumentedSourceDir_def)

theorem generateUniqueDirName_swallows_witness:
  "resolveFluidModulePathSafely failing_dir_env ''/tmp'' = Inl (Failure ''cannot resolve'') \<and>
   generateUniqueDirName failing_dir_env ''/tmp'' ''reports'' ''abc'' =
     (None, [(INFO, [Txt ''Error generating unique dir name:'', Err (Failure ''cannot resolve'')])]) \<and>
   os_tmpdir failing_dir_env = ''/tmp'' \<and>
   testemDir failing_dir_env ''abc'' = None \<and> reportsDir failing_dir_env ''abc'' = None \<and>
   coverageDirOption failing_dir_env ''abc'' = None \<and>
   instrumentedSourceDir failing_dir_env ''abc'' = None"
  using generateUniqueDirName_swallows
    [of failing_dir_env "''/tmp''" "Failure ''cannot resolve''" "''reports''" "''abc''" "''abc''"]
  by (simp add: failing_dir_env_def)

section \<open>Proofs: \<^verbatim>\<open>constructProxies\<close>\<close>















lemma array_index_examples:
  "array_index ''7'' = Some 7" "array_index ''0'' = Some 0"
  "array_index ''4294967294'' = Some 4294967294" "array_index ''4294967295'' = None"
  "array_index ''07'' = None" "array_index [] = None" "array_index ''1e3'' = None"
  by (simp_all add: array_index_def digit_chars_def numeral_value_def digit_value_def)



section \<open>Proofs: the wait for a secondary event\<close>







lemma wrapSecondaryEvent_start:
  "eventPromise (wrapSecondaryEvent that ename ls) =
     \<lparr> disposition = Pending,
       onResolve = [RemoveListener (listenerNamespace that), ClearPromiseTimeout],
       onReject = [RemoveListener (listenerNamespace that), ClearPromiseTimeout] \<rparr> \<and>
   timeout (wrapSecondaryEvent that ename ls) =
     Armed (wrappedEventTimeout that)
       (timed_out_message ename) \<and>
   listeners (wrapSecondaryEvent that ename ls) = addListener SingleUse (listenerNamespace that) ls \<and>
   wait_log (wrapSecondaryEvent that ename ls) = [] \<and>
   notified (wrapSecondaryEvent that ename ls) = [] \<and>
   raised (wrapSecondaryEvent that ename ls) = []"
  by (simp add: wrapSecondaryEvent_def addPromiseTimeout_def generateSingleUseEventListener_def
      promise_then_def fluid_promise_def timed_out_message_def)














lemma wait_run_snoc: "wait_run st (evs @ [ev]) = wait_step (wait_run st evs) ev"
  by (simp add: wait_run_def)









section \<open>Proofs: cleanup\<close>

lemma promise_sequence_append:
  "promise_sequence fs st = (Resolved, st1) \<Longrightarrow> promise_sequence (fs @ gs) st = promise_sequence gs st1"
  by (induction fs arbitrary: st) (auto split: prod.splits outcome.splits)

lemma promise_sequence_rejected:
  "promise_sequence fs st = (Resolved, st1) \<Longrightarrow> f st1 = (Rejected e, st2) \<Longrightarrow>
     promise_sequence (fs @ f # gs) st = (Rejected e, st2)"
  by (simp add: promise_sequence_append)

lemma cleanupDir_plain:
  assumes "\<not> isTestemContent d"
  shows "(\<exists>p. module_resolvePath env (def_path d) = Inr p \<and> fst (cleanupDir env d st) = Resolved) \<or>
         (\<exists>e. module_resolvePath env (def_path d) = Inl e \<and> cleanupDir env d st = (Thrown e, st))"
  using assms
  by (auto simp: cleanupDir_def split: sum.splits bool.splits prod.splits option.splits)

lemma sequence_plain_both:
  assumes "\<forall>d\<in>set defs. \<not> isTestemContent d"
  shows "(\<forall>e. fst (promise_sequence (map (cleanupDir env) defs) st) \<noteq> Rejected e) \<and>
         ((\<forall>d\<in>set defs. \<exists>p. module_resolvePath env (def_path d) = Inr p) \<longrightarrow>
            fst (promise_sequence (map (cleanupDir env) defs) st) = Resolved)"
  using assms
proof (induction defs arbitrary: st)
  case Nil
  show ?case by simp
next
  case (Cons d defs)
  from Cons.prems have d: "\<not> isTestemContent d" and rest: "\<forall>d\<in>set defs. \<not> isTestemContent d"
    by simp_all
  obtain out st' where c: "cleanupDir env d st = (out, st')" by (cases "cleanupDir env d st")
  from cleanupDir_plain[OF d, of env st] c
  consider (ok) p where "module_resolvePath env (def_path d) = Inr p" "out = Resolved"
    | (thrown) e' where "module_resolvePath env (def_path d) = Inl e'" "out = Thrown e'"
    by auto
  then show ?case
  proof cases
    case ok
    with c Cons.IH[OF rest, of st'] show ?thesis by simp
  next
    case thrown
    with c show ?thesis by auto
  qed
qed

lemma sequence_plain_not_rejected:
  "\<forall>d\<in>set defs. \<not> isTestemContent d \<Longrightarrow>
     fst (promise_sequence (map (cleanupDir env) defs) st) \<noteq> Rejected e"
  using sequence_plain_both by blast

lemma sequence_plain_resolved:
  "\<forall>d\<in>set defs. \<not> isTestemContent d \<Longrightarrow>
   \<forall>d\<in>set defs. \<exists>p. module_resolvePath env (def_path d) = Inr p \<Longrightarrow>
     fst (promise_sequence (map (cleanupDir env) defs) st) = Resolved"
  using sequence_plain_both by blast

lemma cleanup_outcome:
  "fst (cleanup env stage defs st) = fst (promise_sequence (map (cleanupDir env) defs) st)"
  by (simp add: cleanup_def split: prod.splits outcome.splits)

lemma cleanupDir_removal_error:
  assumes "\<not> isTestemContent d" "module_resolvePath env (def_path d) = Inr p"
    "existsSync env (files st) p = Inr True" "rimraf env (files st) p = (Some err, fs')"
  shows "cleanupDir env d st =
     (Resolved, logs (WARN, [Txt ''Error removing '', Txt (def_name d), Txt '' content:'', Err err])
                  (st\<lparr> files := fs' \<rparr>))"
  using assms by (simp add: cleanupDir_def)

text \<open>Testem content: the two exceptions the \<^verbatim>\<open>try\<close> block catches, and a removal that fails.\<close>

lemma cleanupDir_testem_unresolved:
  assumes "isTestemContent d" "module_resolvePath env (def_path d) = Inr p"
    "resolveFluidModulePathSafely env p = Inl e"
  shows "cleanupDir env d st = (Rejected e, st)"
  using assms by (simp add: cleanupDir_def cleanupTestemContent_def)

lemma cleanupDir_testem_unreadable:
  assumes "isTestemContent d" "module_resolvePath env (def_path d) = Inr p"
    "resolveFluidModulePathSafely env p = Inr q" "readdirSync env (files st) (os_tmpdir env) = Inl e"
  shows "cleanupDir env d st = (Rejected e, st)"
  using assms by (simp add: cleanupDir_def cleanupTestemContent_def)

lemma cleanupDir_testem_removal_error:
  assumes "isTestemContent d" "module_resolvePath env (def_path d) = Inr p"
    "resolveFluidModulePathSafely env p = Inr q" "readdirSync env (files st) (os_tmpdir env) = Inr tmpFiles"
    "testem_paths env q tmpFiles = removed @ x # rest"
    "promise_sequence (map (generateRimrafWrapper env) removed) st = (Resolved, st1)"
    "rimraf env (files st1) x = (Some err, fs')"
  shows "cleanupDir env d st = (Rejected err, st1\<lparr> files := fs' \<rparr>)"
proof -
  have w: "generateRimrafWrapper env x st1 = (Rejected err, st1\<lparr> files := fs' \<rparr>)"
    using assms(7) by (simp add: generateRimrafWrapper_def)
  have "cleanupDir env d st = promise_sequence (map (generateRimrafWrapper env) (testem_paths env q tmpFiles)) st"
    using assms(1-4) by (simp add: cleanupDir_def cleanupTestemContent_def testem_paths_def comp_def)
  also have "\<dots> = promise_sequence
      (map (generateRimrafWrapper env) removed @ generateRimrafWrapper env x # map (generateRimrafWrapper env) rest) st"
    by (simp add: assms(5))
  also have "\<dots> = (Rejected err, st1\<lparr> files := fs' \<rparr>)"
    using promise_sequence_rejected[where f = "generateRimrafWrapper env x", OF assms(6) w] .
  finally show ?thesis .
qed

lemma cleanup_rejected:
  assumes "promise_sequence (map (cleanupDir env) before) st = (Resolved, st1)"
    "cleanupDir env d st1 = (Rejected e, st2)"
  shows "cleanup env stage (before @ d # rest) st =
     (Rejected e, logs (INFO, [Txt ''Cleanup failed:'', Err e]) st2)"
proof -
  from promise_sequence_rejected[where f = "cleanupDir env d" and gs = "map (cleanupDir env) rest", OF assms]
  show ?thesis by (simp add: cleanup_def)
qed

text \<open>
  Claim C3, as amended. A removal failure of a definition that is not Testem content is
  caught, logged at warning level and counted as success, and a stage whose definitions
  are all of that kind never rejects: it resolves whenever \<^verbatim>\<open>fluid.module.resolvePath\<close> does
  not throw. For a definition with \<^verbatim>\<open>isTestemContent\<close> set, the promise of the definition
  is rejected with the exception when \<^verbatim>\<open>resolveFluidModulePathSafely\<close> or the reading of the
  temporary directory throws, and with the error of \<^verbatim>\<open>rimraf\<close> when the removal of its
  directory or of a \<^verbatim>\<open>Temp-\<close> directory fails after the removals before it succeeded. A
  definition whose promise is rejected, the definitions before it having resolved, rejects
  the promise of the stage with the same error; the stage logs \<^verbatim>\<open>Cleanup failed:\<close> and runs
  no further definition.
\<close>

theorem cleanup_absorbs_plain_removal_failures:
  "(\<not> isTestemContent d \<and> module_resolvePath env (def_path d) = Inr p \<and>
    existsSync env (files st) p = Inr True \<and> rimraf env (files st) p = (Some err, fs') \<longrightarrow>
      cleanupDir env d st =
        (Resolved, logs (WARN, [Txt ''Error removing '', Txt (def_name d), Txt '' content:'', Err err])
                     (st\<lparr> files := fs' \<rparr>))) \<and>
   ((\<forall>d\<in>set defs. \<not> isTestemContent d) \<longrightarrow>
      (\<forall>e. fst (cleanup env stage defs st) \<noteq> Rejected e) \<and>
      ((\<forall>d\<in>set defs. \<exists>p. module_resolvePath env (def_path d) = Inr p) \<longrightarrow>
         fst (cleanup env stage defs st) = Resolved)) \<and>
   (isTestemContent t \<and> module_resolvePath env (def_path t) = Inr p \<longrightarrow>
      (resolveFluidModulePathSafely env p = Inl err \<longrightarrow> cleanupDir env t st = (Rejected err, st)) \<and>
      (resolveFluidModulePathSafely env p = Inr q \<and>
       readdirSync env (files st) (os_tmpdir env) = Inl err \<longrightarrow>
         cleanupDir env t st = (Rejected err, st)) \<and>
      (resolveFluidModulePathSafely env p = Inr q \<and>
       readdirSync env (files st) (os_tmpdir env) = Inr tmpFiles \<and>
       testem_paths env q tmpFiles = removed @ x # others \<and>
       promise_sequence (map (generateRimrafWrapper env) removed) st = (Resolved, st1) \<and>
       rimraf env (files st1) x = (Some err, fs') \<longrightarrow>
         cleanupDir env t st = (Rejected err, st1\<lparr> files := fs' \<rparr>))) \<and>
   (promise_sequence (map (cleanupDir env) before) st = (Resolved, st2) \<and>
    cleanupDir env t st2 = (Rejected err, st3) \<longrightarrow>
      cleanup env stage (before @ t # rest) st =
        (Rejected err, logs (INFO, [Txt ''Cleanup failed:'', Err err]) st3))"
proof (intro conjI impI allI)
  assume "\<not> isTestemContent d \<and> module_resolvePath env (def_path d) = Inr p \<and>
    existsSync env (files st) p = Inr True \<and> rimraf env (files st) p = (Some err, fs')"
  then show "cleanupDir env d st =
        (Resolved, logs (WARN, [Txt ''Error removing '', Txt (def_name d), Txt '' content:'', Err err])
                     (st\<lparr> files := fs' \<rparr>))"
    by (elim conjE) (rule cleanupDir_removal_error)
next
  fix e assume "\<forall>d\<in>set defs. \<not> isTestemContent d"
  then show "fst (cleanup env stage defs st) \<noteq> Rejected e"
    by (simp add: cleanup_outcome sequence_plain_not_rejected)
next
  assume a: "\<forall>d\<in>set defs. \<not> isTestemContent d"
    and b: "\<forall>d\<in>set defs. \<exists>p. module_resolvePath env (def_path d) = Inr p"
  from sequence_plain_resolved[OF a b] show "fst (cleanup env stage defs st) = Resolved"
    by (simp add: cleanup_outcome)
next
  assume "isTestemContent t \<and> module_resolvePath env (def_path t) = Inr p"
    and "resolveFluidModulePathSafely env p = Inl err"
  then show "cleanupDir env t st = (Rejected err, st)"
    by (elim conjE) (rule cleanupDir_testem_unresolved)
next
  assume "isTestemContent t \<and> module_resolvePath env (def_path t) = Inr p"
    and "resolveFluidModulePathSafely env p = Inr q \<and>
       readdirSync env (files st) (os_tmpdir env) = Inl err"
  then show "cleanupDir env t st = (Rejected err, st)"
    by (elim conjE) (rule cleanupDir_testem_unreadable)
next
  assume "isTestemContent t \<and> module_resolvePath env (def_path t) = Inr p"
    and "resolveFluidModulePathSafely env p = Inr q \<and>
       readdirSync env (files st) (os_tmpdir env) = Inr tmpFiles \<and>
       testem_paths env q tmpFiles = removed @ x # others \<and>
       promise_sequence (map (generateRimrafWrapper env) removed) st = (Resolved, st1) \<and>
       rimraf env (files st1) x = (Some err, fs')"
  then show "cleanupDir env t st = (Rejected err, st1\<lparr> files := fs' \<rparr>)"
    by (elim conjE) (rule cleanupDir_testem_removal_error)
next
  assume "promise_sequence (map (cleanupDir env) before) st = (Resolved, st2) \<and>
    cleanupDir env t st2 = (Rejected err, st3)"
  then show "cleanup env stage (before @ t # rest) st =
        (Rejected err, logs (INFO, [Txt ''Cleanup failed:'', Err err]) st3)"
    by (elim conjE) (rule cleanup_rejected)
qed

lemma testemRegexp_Temp: "testemRegexp ''Temp-1234''" "\<not> testemRegexp ''notes.txt''"
  by (simp_all add: testemRegexp_def in_cset.simps)

text \<open>
  Claim C3 as stated fails: the stage made of the Testem content definition alone, the
  default of the component, is rejected with the error of \<^verbatim>\<open>rimraf\<close> when the directory
  cannot be removed, and no warning is logged.
\<close>

theorem cleanup_testem_removal_error_rejects:
  "isTestemContent testem_def \<and>
   module_resolvePath example_cleanup_env (def_path testem_def) = Inr ''/tmp/user_data_dir-abc'' \<and>
   rimraf example_cleanup_env (files example_files) ''/tmp/user_data_dir-abc'' =
     (Some (Failure ''EBUSY''), files example_files) \<and>
   cleanup example_cleanup_env ''Initial'' [testem_def] example_files =
     (Rejected (Failure ''EBUSY''),
      example_files\<lparr> cleanup_log := [(INFO, [Txt ''Cleanup failed:'', Err (Failure ''EBUSY'')])] \<rparr>)"
  by (simp add: cleanup_def cleanupDir_def cleanupTestemContent_def generateRimrafWrapper_def
      testem_def_def example_cleanup_env_def example_files_def busy_def logs_def)

theorem cleanup_absorbs_plain_removal_failures_witness:
  "cleanupDir example_cleanup_env locked_def example_files =
     (Resolved, logs (WARN, [Txt ''Error removing '', Txt ''locked'', Txt '' content:'', Err (Failure ''EBUSY'')])
                  example_files) \<and>
   fst (cleanup example_cleanup_env ''Initial'' [locked_def, missing_def, coverage_def] example_files) = Resolved \<and>
   cleanupDir unresolvable_env testem_def example_files = (Rejected (Failure ''cannot resolve''), example_files) \<and>
   cleanupDir unreadable_env testem_def example_files = (Rejected (Failure ''EACCES''), example_files) \<and>
   cleanupDir example_cleanup_env testem_def example_files = (Rejected (Failure ''EBUSY''), example_files) \<and>
   cleanupDir stuck_temp_env testem_def example_files =
     (Rejected (Failure ''EPERM''),
      example_files\<lparr> files := [''/tmp/Temp-1234'', ''/locked'', ''/tmp/coverage-abc''] \<rparr>) \<and>
   cleanup example_cleanup_env ''Final'' [coverage_def, testem_def, locked_def] example_files =
     (Rejected (Failure ''EBUSY''),
      \<lparr> files = [''/tmp/user_data_dir-abc'', ''/tmp/Temp-1234'', ''/locked''],
        cleanup_log = [(INFO, [Txt ''Removed '', Txt ''coverage'', Txt '' content...'']),
                       (INFO, [Txt ''Cleanup failed:'', Err (Failure ''EBUSY'')])] \<rparr>)"
proof -
  note main = cleanup_absorbs_plain_removal_failures
  note ex = example_cleanup_env_def example_files_def busy_def testem_def_def locked_def_def
    missing_def_def coverage_def_def
  have a: "cleanupDir example_cleanup_env locked_def example_files =
     (Resolved, logs (WARN, [Txt ''Error removing '', Txt ''locked'', Txt '' content:'', Err (Failure ''EBUSY'')])
                  example_files)"
    using main[where d = locked_def and env = example_cleanup_env and p = "''/locked''"
        and st = example_files and err = "Failure ''EBUSY''" and fs' = "files example_files", THEN conjunct1]
    by (simp add: ex)
  have b: "fst (cleanup example_cleanup_env ''Initial'' [locked_def, missing_def, coverage_def] example_files) = Resolved"
    using main[where defs = "[locked_def, missing_def, coverage_def]"
        and env = example_cleanup_env and stage = "''Initial''" and st = example_files, THEN conjunct2, THEN conjunct1]
    by (simp add: ex)
  have c: "cleanupDir unresolvable_env testem_def example_files =
      (Rejected (Failure ''cannot resolve''), example_files)"
    using main[where t = testem_def and p = "''/tmp/user_data_dir-abc''" and st = example_files
        and env = unresolvable_env and err = "Failure ''cannot resolve''", THEN conjunct2, THEN conjunct2, THEN conjunct1]
    by (simp add: ex unresolvable_env_def)
  have d: "cleanupDir unreadable_env testem_def example_files = (Rejected (Failure ''EACCES''), example_files)"
    using main[where t = testem_def and p = "''/tmp/user_data_dir-abc''" and st = example_files
        and env = unreadable_env and err = "Failure ''EACCES''" and q = "''/tmp/user_data_dir-abc''", THEN conjunct2, THEN conjunct2, THEN conjunct1]
    by (simp add: ex unreadable_env_def)
  have e: "cleanupDir example_cleanup_env testem_def example_files = (Rejected (Failure ''EBUSY''), example_files)"
    using main[where t = testem_def and p = "''/tmp/user_data_dir-abc''" and st = example_files
        and env = example_cleanup_env and err = "Failure ''EBUSY''"
        and q = "''/tmp/user_data_dir-abc''" and tmpFiles = "[''Temp-1234'', ''notes.txt'']"
        and removed = "[]" and x = "''/tmp/user_data_dir-abc''" and others = "[''/tmp/Temp-1234'']"
        and ?st1.0 = example_files and fs' = "files example_files", THEN conjunct2, THEN conjunct2, THEN conjunct1]
    by (simp add: ex testem_paths_def testemRegexp_Temp)
  have f: "cleanupDir stuck_temp_env testem_def example_files =
     (Rejected (Failure ''EPERM''),
      example_files\<lparr> files := [''/tmp/Temp-1234'', ''/locked'', ''/tmp/coverage-abc''] \<rparr>)"
    using main[where t = testem_def and p = "''/tmp/user_data_dir-abc''" and st = example_files
        and env = stuck_temp_env and err = "Failure ''EPERM''"
        and q = "''/tmp/user_data_dir-abc''" and tmpFiles = "[''Temp-1234'', ''notes.txt'']"
        and removed = "[''/tmp/user_data_dir-abc'']" and x = "''/tmp/Temp-1234''" and others = "[]"
        and ?st1.0 = "example_files\<lparr> files := [''/tmp/Temp-1234'', ''/locked'', ''/tmp/coverage-abc''] \<rparr>"
        and fs' = "[''/tmp/Temp-1234'', ''/locked'', ''/tmp/coverage-abc'']", THEN conjunct2, THEN conjunct2, THEN conjunct1]
    by (simp add: ex stuck_temp_env_def testem_paths_def testemRegexp_Temp generateRimrafWrapper_def)
  have g: "cleanup example_cleanup_env ''Final'' [coverage_def, testem_def, locked_def] example_files =
     (Rejected (Failure ''EBUSY''),
      \<lparr> files = [''/tmp/user_data_dir-abc'', ''/tmp/Temp-1234'', ''/locked''],
        cleanup_log = [(INFO, [Txt ''Removed '', Txt ''coverage'', Txt '' content...'']),
                       (INFO, [Txt ''Cleanup failed:'', Err (Failure ''EBUSY'')])] \<rparr>)"
    using main[where env = example_cleanup_env
        and before = "[coverage_def]" and t = testem_def and rest = "[locked_def]" and st = example_files
        and stage = "''Final''" and err = "Failure ''EBUSY''"
        and ?st2.0 = "\<lparr> files = [''/tmp/user_data_dir-abc'', ''/tmp/Temp-1234'', ''/locked''],
            cleanup_log = [(INFO, [Txt ''Removed '', Txt ''coverage'', Txt '' content...''])] \<rparr>"
        and ?st3.0 = "\<lparr> files = [''/tmp/user_data_dir-abc'', ''/tmp/Temp-1234'', ''/locked''],
            cleanup_log = [(INFO, [Txt ''Removed '', Txt ''coverage'', Txt '' content...''])] \<rparr>", THEN conjunct2, THEN conjunct2, THEN conjunct2]
    by (simp add: ex cleanupDir_def cleanupTestemContent_def generateRimrafWrapper_def logs_def)
  from a b c d e f g show ?thesis by simp
qed








section \<open>Proofs: the instrumentation pass\<close>

lemma instr_handlers_frame:
  "sources (call_instr_handlers st hs) = sources st \<and>
   index (call_instr_handlers st hs) = index st \<and>
   in_flight (call_instr_handlers st hs) = in_flight st \<and>
   begun (call_instr_handlers st hs) = begun st \<and>
   sequence (call_instr_handlers st hs) = sequence st"
proof (induction st hs rule: call_instr_handlers.induct)
qed simp_all

lemma settle_frame:
  "sources (settle_sequence r st) = sources st \<and>
   index (settle_sequence r st) = index st \<and>
   in_flight (settle_sequence r st) = in_flight st \<and>
   begun (settle_sequence r st) = begun st"
  by (cases r) (auto simp: settle_sequence_def instr_handlers_frame)

lemma settle_resolve_disposition:
  "disposition (sequence (settle_sequence (promise_resolve v (sequence st)) st)) =
     (if disposition (sequence st) = Pending then Resolve v else disposition (sequence st))"
  by (cases "disposition (sequence st)")
     (simp_all add: settle_sequence_def promise_resolve_def instr_handlers_frame)

lemma settle_reject_disposition:
  "disposition (sequence (settle_sequence (promise_reject v (sequence st)) st)) =
     (if disposition (sequence st) = Pending then Reject v else disposition (sequence st))"
  by (cases "disposition (sequence st)")
     (simp_all add: settle_sequence_def promise_reject_def instr_handlers_frame)

lemma consumes_frame:
  "sources (instr_step env st (Consumes n)) = sources st \<and>
   index (instr_step env st (Consumes n)) = index st \<and>
   in_flight (instr_step env st (Consumes n)) = in_flight st \<and>
   begun (instr_step env st (Consumes n)) = begun st \<and>
   disposition (sequence (instr_step env st (Consumes n))) = disposition (sequence st) \<and>
   (disposition (sequence st) = Pending \<longrightarrow>
      onReject (sequence (instr_step env st (Consumes n))) = onReject (sequence st) @ [Consumer n])"
  by (cases "disposition (sequence st)")
     (simp_all add: promise_then_def instr_handlers_frame)

lemma consumes_inv:
  "instr_inv srcs st \<Longrightarrow> instr_inv srcs (instr_step env st (Consumes n))"
  using consumes_frame[of env st n]
  by (auto simp: instr_inv_def simp del: instr_step.simps)

lemma rejects_step:
  assumes inv: "instr_inv srcs st" and fl: "in_flight st = [(i, src, dst)]"
  shows "disposition (sequence (instr_step env st (InstrumentRejects i r))) = Reject r \<and>
         instr_raised (instr_step env st (InstrumentRejects i r)) = instr_raised st @ [FluidFail (Reason r)] \<and>
         instr_log (instr_step env st (InstrumentRejects i r)) =
           instr_log st @ [(FAIL, [Txt (''Instrumentation error:'' @ [CHR 0x0A]), Err (Reason r)])] \<and>
         consumed (instr_step env st (InstrumentRejects i r)) = consumed st \<and>
         in_flight (instr_step env st (InstrumentRejects i r)) = [] \<and>
         begun (instr_step env st (InstrumentRejects i r)) = begun st \<and>
         sources (instr_step env st (InstrumentRejects i r)) = sources st \<and>
         index (instr_step env st (InstrumentRejects i r)) = index st"
proof -
  from inv fl have p: "disposition (sequence st) = Pending"
    and q: "onReject (sequence st) \<noteq> []" "hd (onReject (sequence st)) = InstrumentationError"
    by (auto simp: instr_inv_def)
  then obtain hs where hs: "onReject (sequence st) = InstrumentationError # hs"
    by (cases "onReject (sequence st)") auto
  show ?thesis
    by (simp add: fl processSequenceReject_def landed_def settle_sequence_def promise_reject_def p hs)
qed

lemma rejects_inv:
  assumes inv: "instr_inv srcs st"
  shows "instr_inv srcs (instr_step env st (InstrumentRejects i r))"
proof (cases "i \<in> fst ` set (in_flight st)")
  case False
  with inv show ?thesis by simp
next
  case True
  with inv obtain src dst where fl: "in_flight st = [(i, src, dst)]"
    by (auto simp: instr_inv_def)
  from rejects_step[OF inv fl, of env r] inv show ?thesis
    by (simp add: instr_inv_def del: instr_step.simps)
qed

lemma resolves_inv:
  assumes inv: "instr_inv srcs st"
  shows "instr_inv srcs (instr_step env st (InstrumentResolves i v))"
proof (cases "i \<in> fst ` set (in_flight st)")
  case False
  with inv show ?thesis by simp
next
  case True
  with inv obtain dst where fl: "in_flight st = [(index st, fst (srcs ! index st), dst)]"
    and i: "i = index st" and lt: "index st < length srcs"
    and p: "disposition (sequence st) = Pending"
    and len: "length (begun st) = Suc (index st)"
    and src: "sources st = srcs"
    and pre: "map fst (begun st) = take (length (begun st)) (map fst srcs)"
    and q: "onReject (sequence st) \<noteq> []" "hd (onReject (sequence st)) = InstrumentationError"
    by (auto simp: instr_inv_def)
  let ?st = "(landed i st)\<lparr> returns := returns st @ [v], index := Suc (index st) \<rparr>"
  have step: "instr_step env st (InstrumentResolves i v) = resumeSequence env ?st"
    using True by (simp add: progressSequence_def landed_def)
  show ?thesis
  proof (cases "Suc (index st) = length srcs")
    case True
    then have "resumeSequence env ?st =
        settle_sequence (promise_resolve (JArr (returns st @ [v])) (sequence st)) ?st"
      by (simp add: resumeSequence_def landed_def src)
    then show ?thesis
      unfolding step
      using settle_frame[of "promise_resolve (JArr (returns st @ [v])) (sequence st)" ?st]
        settle_resolve_disposition[of "JArr (returns st @ [v])" ?st] pre src p
      by (simp add: instr_inv_def landed_def fl i)
  next
    case False
    with lt have lt': "Suc (index st) < length srcs" by simp
    obtain a b where ab: "srcs ! Suc (index st) = (a, b)" by (cases "srcs ! Suc (index st)")
    show ?thesis
    proof (cases "resolvePackageOrCwdRelativePath env (resolvedInstrumentationDir st)
                    (extractLastContentSegment env b)")
      case (Inl e)
      then have "resumeSequence env ?st = ?st\<lparr> instr_raised := instr_raised st @ [e] \<rparr>"
        using False by (simp add: resumeSequence_def landed_def src ab)
      then show ?thesis
        unfolding step using pre src p q
        by (simp add: instr_inv_def landed_def fl i)
    next
      case (Inr dst')
      then have r: "resumeSequence env ?st =
          ?st\<lparr> begun := begun st @ [(a, dst')], in_flight := [(Suc (index st), a, dst')] \<rparr>"
        using False by (simp add: resumeSequence_def landed_def src ab fl i)
      have "map fst (begun st @ [(a, dst')]) = take (Suc (Suc (index st))) (map fst srcs)"
        using pre len lt' ab by (simp add: take_Suc_conv_app_nth)
      then show ?thesis
        unfolding step r using src p q lt' len ab
        by (simp add: instr_inv_def landed_def)
    qed
  qed
qed

lemma instr_step_inv:
  "instr_inv srcs st \<Longrightarrow> instr_inv srcs (instr_step env st ev)"
  by (cases ev) (simp_all only: resolves_inv rejects_inv consumes_inv)

lemma instr_run_inv:
  "instr_inv srcs st \<Longrightarrow> instr_inv srcs (instr_run env st evs)"
proof (induction evs arbitrary: st)
  case Nil
  then show ?case by (simp add: instr_run_def)
next
  case (Cons ev evs)
  from Cons.IH[OF instr_step_inv[OF Cons.prems, of env ev]] show ?case
    by (simp add: instr_run_def)
qed

text \<open>Once nothing is in flight nothing begins any more, and a settled sequence stays as it is.\<close>

lemma idle_step:
  assumes "in_flight st = []"
  shows "in_flight (instr_step env st ev) = [] \<and> begun (instr_step env st ev) = begun st \<and>
         disposition (sequence (instr_step env st ev)) = disposition (sequence st)"
proof (cases ev)
  case (Consumes n)
  with assms consumes_frame[of env st n] show ?thesis by simp
qed (use assms in simp_all)

lemma idle_run:
  "in_flight st = [] \<Longrightarrow>
     in_flight (instr_run env st evs) = [] \<and> begun (instr_run env st evs) = begun st \<and>
     disposition (sequence (instr_run env st evs)) = disposition (sequence st)"
proof (induction evs arbitrary: st)
  case Nil
  then show ?case by (simp add: instr_run_def)
next
  case (Cons ev evs)
  from idle_step[OF Cons.prems, of env ev] Cons.IH[of "instr_step env st ev"]
  show ?case by (simp add: instr_run_def)
qed

lemma instrumentSource_inv:
  assumes "instrumentSource env options = Inr st0"
  shows "instr_inv (sources st0) st0"
proof -
  from assms obtain dir resolvedCwd promises where
    d: "instr_resolvePath env (opt_instrumentedSourceDir options) = Inr dir"
    and c: "instr_resolvePath env (opt_cwd options) = Inr resolvedCwd"
    and s: "resolve_sources env resolvedCwd
              (fluid_transform (instr_expandPath env) (opt_sourceDirs options)) = Inr promises"
    by (auto simp: instrumentSource_def Let_def split: sum.splits)
  let ?init = "\<lparr> sources = promises, resolvedInstrumentationDir = dir, index = 0, returns = [],
                 in_flight = [], begun = [], sequence = fluid_promise,
                 instr_log = [(INFO, [Txt ''Instrumenting source.''])],
                 instr_raised = [], consumed = [] \<rparr>"
  show ?thesis
  proof (cases promises)
    case Nil
    then have "resumeSequence env ?init =
        ?init\<lparr> sequence := fluid_promise\<lparr> disposition := Resolve (JArr []) \<rparr> \<rparr>"
      by (simp add: resumeSequence_def settle_sequence_def promise_resolve_def fluid_promise_def)
    with assms d c s have "st0 = call_instr_handlers
        (?init\<lparr> sequence := \<lparr> disposition = Resolve (JArr []), onResolve = [],
                                onReject = [InstrumentationError] \<rparr> \<rparr>) [(Finished, JArr [])]"
      by (simp add: instrumentSource_def Let_def promise_then_def fluid_promise_def)
    then show ?thesis by (simp add: instr_inv_def Nil)
  next
    case (Cons p ps)
    obtain a b where p: "p = (a, b)" by (cases p)
    show ?thesis
    proof (cases "resolvePackageOrCwdRelativePath env dir (extractLastContentSegment env b)")
      case (Inl e)
      then have "resumeSequence env ?init = ?init\<lparr> instr_raised := [e] \<rparr>"
        by (simp add: resumeSequence_def Cons p)
      with assms d c s show ?thesis by (simp add: instrumentSource_def Let_def)
    next
      case (Inr dst)
      then have "resumeSequence env ?init = ?init\<lparr> begun := [(a, dst)], in_flight := [(0, a, dst)] \<rparr>"
        by (simp add: resumeSequence_def Cons p)
      with assms d c s have "st0 = ?init\<lparr> begun := [(a, dst)], in_flight := [(0, a, dst)],
          sequence := \<lparr> disposition = Pending, onResolve = [Finished], onReject = [InstrumentationError] \<rparr> \<rparr>"
        by (simp add: instrumentSource_def Let_def promise_then_def fluid_promise_def)
      then show ?thesis by (simp add: instr_inv_def Cons p)
    qed
  qed
qed

lemma resolve_sources_paths:
  "resolve_sources env resolvedCwd defs = Inr promises \<Longrightarrow>
     map (\<lambda>(src, d). (Inr src, d)) promises =
     map (\<lambda>(key, d). (resolvePackageOrCwdRelativePath env resolvedCwd (filePath env d), d)) defs"
  by (induction defs arbitrary: promises) (auto split: sum.splits)

text \<open>
  Claim C8. After \<^verbatim>\<open>instrumentSource\<close> has returned, and whatever the instrumenter and the
  holder of the promise do next: at most one call of the instrumenter is pending at any
  moment; the calls begun are the source directories in order, from the first; the call
  pending is the last one begun, and the sequence is pending with it. When the pending
  call is rejected, the promise that \<^verbatim>\<open>instrumentSource\<close> returned is rejected with the same
  reason, the error is logged at level \<open>FAIL\<close>, \<^verbatim>\<open>fluid.fail\<close> raises it, and from then on no
  further call of the instrumenter is begun and the promise stays rejected.
\<close>

theorem instrumentSource_sequential:
  "instrumentSource env options = Inr st0 \<longrightarrow>
     (\<forall>evs. let st = instr_run env st0 evs in
        length (in_flight st) \<le> 1 \<and>
        map fst (begun st) = take (length (begun st)) (map fst (sources st0)) \<and>
        (\<forall>i src dst. in_flight st = [(i, src, dst)] \<longrightarrow>
           last (begun st) = (src, dst) \<and> length (begun st) = Suc i \<and>
           disposition (sequence st) = Pending \<and>
           (\<forall>r. let st' = instr_step env st (InstrumentRejects i r) in
              disposition (sequence st') = Reject r \<and>
              instr_raised st' = instr_raised st @ [FluidFail (Reason r)] \<and>
              instr_log st' = instr_log st @
                [(FAIL, [Txt (''Instrumentation error:'' @ [CHR 0x0A]), Err (Reason r)])] \<and>
              in_flight st' = [] \<and>
              (\<forall>evs'. begun (instr_run env st' evs') = begun st \<and>
                      in_flight (instr_run env st' evs') = [] \<and>
                      disposition (sequence (instr_run env st' evs')) = Reject r))))"
proof (intro impI allI)
  fix evs
  assume a: "instrumentSource env options = Inr st0"
  define st where "st = instr_run env st0 evs"
  have inv: "instr_inv (sources st0) st"
    unfolding st_def using instrumentSource_inv[OF a] by (rule instr_run_inv)
  have one: "length (in_flight st) \<le> 1" using inv by (auto simp: instr_inv_def)
  have pre: "map fst (begun st) = take (length (begun st)) (map fst (sources st0))"
    using inv by (simp add: instr_inv_def)
  have fl: "last (begun st) = (src, dst) \<and> length (begun st) = Suc i \<and>
           disposition (sequence st) = Pending \<and>
           (\<forall>r. let st' = instr_step env st (InstrumentRejects i r) in
              disposition (sequence st') = Reject r \<and>
              instr_raised st' = instr_raised st @ [FluidFail (Reason r)] \<and>
              instr_log st' = instr_log st @
                [(FAIL, [Txt (''Instrumentation error:'' @ [CHR 0x0A]), Err (Reason r)])] \<and>
              in_flight st' = [] \<and>
              (\<forall>evs'. begun (instr_run env st' evs') = begun st \<and>
                      in_flight (instr_run env st' evs') = [] \<and>
                      disposition (sequence (instr_run env st' evs')) = Reject r))"
    if f: "in_flight st = [(i, src, dst)]" for i src dst
  proof -
    from inv f have b: "last (begun st) = (src, dst)" "length (begun st) = Suc i"
      "disposition (sequence st) = Pending"
      by (auto simp: instr_inv_def)
    have r: "let st' = instr_step env st (InstrumentRejects i r) in
              disposition (sequence st') = Reject r \<and>
              instr_raised st' = instr_raised st @ [FluidFail (Reason r)] \<and>
              instr_log st' = instr_log st @
                [(FAIL, [Txt (''Instrumentation error:'' @ [CHR 0x0A]), Err (Reason r)])] \<and>
              in_flight st' = [] \<and>
              (\<forall>evs'. begun (instr_run env st' evs') = begun st \<and>
                      in_flight (instr_run env st' evs') = [] \<and>
                      disposition (sequence (instr_run env st' evs')) = Reject r)" for r
    proof -
      note s = rejects_step[OF inv f, of env r]
      from s have "in_flight (instr_step env st (InstrumentRejects i r)) = []" by blast
      from idle_run[OF this, of env] s show ?thesis unfolding Let_def by metis
    qed
    from b r show ?thesis by blast
  qed
  from one pre fl show "let st = instr_run env st0 evs in
        length (in_flight st) \<le> 1 \<and>
        map fst (begun st) = take (length (begun st)) (map fst (sources st0)) \<and>
        (\<forall>i src dst. in_flight st = [(i, src, dst)] \<longrightarrow>
           last (begun st) = (src, dst) \<and> length (begun st) = Suc i \<and>
           disposition (sequence st) = Pending \<and>
           (\<forall>r. let st' = instr_step env st (InstrumentRejects i r) in
              disposition (sequence st') = Reject r \<and>
              instr_raised st' = instr_raised st @ [FluidFail (Reason r)] \<and>
              instr_log st' = instr_log st @
                [(FAIL, [Txt (''Instrumentation error:'' @ [CHR 0x0A]), Err (Reason r)])] \<and>
              in_flight st' = [] \<and>
              (\<forall>evs'. begun (instr_run env st' evs') = begun st \<and>
                      in_flight (instr_run env st' evs') = [] \<and>
                      disposition (sequence (instr_run env st' evs')) = Reject r)))"
    unfolding Let_def st_def[symmetric] by blast
qed

lemma example_pass_returned:
  "instrumentSource example_instr_env example_instr_options = Inr example_pass"
  by (simp add: instrumentSource_def example_instr_env_def example_instr_options_def example_pass_def
      fluid_transform_def resumeSequence_def promise_then_def fluid_promise_def Let_def)

lemma example_pass_second:
  "in_flight (instr_run example_instr_env example_pass [Consumes 7, InstrumentResolves 0 Null]) =
     [(1, ''/work/vendor/lib'', ''/tmp/instrumented-abc/lib'')] \<and>
   begun (instr_run example_instr_env example_pass [Consumes 7, InstrumentResolves 0 Null]) =
     [(''/work/src'', ''/tmp/instrumented-abc/src''), (''/work/vendor/lib'', ''/tmp/instrumented-abc/lib'')] \<and>
   instr_raised (instr_run example_instr_env example_pass [Consumes 7, InstrumentResolves 0 Null]) = []"
  by (simp add: instr_run_def example_pass_def example_instr_env_def promise_then_def
      progressSequence_def resumeSequence_def landed_def Let_def)

theorem instrumentSource_sequential_witness:
  "instrumentSource example_instr_env example_instr_options = Inr example_pass \<and>
   in_flight (instr_run example_instr_env example_pass [Consumes 7, InstrumentResolves 0 Null]) =
     [(1, ''/work/vendor/lib'', ''/tmp/instrumented-abc/lib'')] \<and>
   disposition (sequence (instr_run example_instr_env example_pass
       [Consumes 7, InstrumentResolves 0 Null, InstrumentRejects 1 (JStr ''bad''), InstrumentResolves 2 Null])) =
     Reject (JStr ''bad'') \<and>
   instr_raised (instr_step example_instr_env
       (instr_run example_instr_env example_pass [Consumes 7, InstrumentResolves 0 Null])
       (InstrumentRejects 1 (JStr ''bad''))) = [FluidFail (Reason (JStr ''bad''))] \<and>
   begun (instr_run example_instr_env example_pass
       [Consumes 7, InstrumentResolves 0 Null, InstrumentRejects 1 (JStr ''bad''), InstrumentResolves 2 Null]) =
     [(''/work/src'', ''/tmp/instrumented-abc/src''), (''/work/vendor/lib'', ''/tmp/instrumented-abc/lib'')]"
proof -
  let ?st = "instr_run example_instr_env example_pass [Consumes 7, InstrumentResolves 0 Null]"
  have run: "instr_run example_instr_env example_pass
       [Consumes 7, InstrumentResolves 0 Null, InstrumentRejects 1 (JStr ''bad''), InstrumentResolves 2 Null] =
     instr_run example_instr_env (instr_step example_instr_env ?st (InstrumentRejects 1 (JStr ''bad'')))
       [InstrumentResolves 2 Null]"
    by (simp add: instr_run_def)
  from instrumentSource_sequential [of example_instr_env example_instr_options example_pass]
    example_pass_returned
  have "let st = ?st in
        length (in_flight st) \<le> 1 \<and>
        map fst (begun st) = take (length (begun st)) (map fst (sources example_pass)) \<and>
        (\<forall>i src dst. in_flight st = [(i, src, dst)] \<longrightarrow>
           last (begun st) = (src, dst) \<and> length (begun st) = Suc i \<and>
           disposition (sequence st) = Pending \<and>
           (\<forall>r. let st' = instr_step example_instr_env st (InstrumentRejects i r) in
              disposition (sequence st') = Reject r \<and>
              instr_raised st' = instr_raised st @ [FluidFail (Reason r)] \<and>
              instr_log st' = instr_log st @
                [(FAIL, [Txt (''Instrumentation error:'' @ [CHR 0x0A]), Err (Reason r)])] \<and>
              in_flight st' = [] \<and>
              (\<forall>evs'. begun (instr_run example_instr_env st' evs') = begun st \<and>
                      in_flight (instr_run example_instr_env st' evs') = [] \<and>
                      disposition (sequence (instr_run example_instr_env st' evs')) = Reject r)))"
    by blast
  with example_pass_second have
    "\<forall>r. let st' = instr_step example_instr_env ?st (InstrumentRejects 1 r) in
              disposition (sequence st') = Reject r \<and>
              instr_raised st' = instr_raised ?st @ [FluidFail (Reason r)] \<and>
              instr_log st' = instr_log ?st @
                [(FAIL, [Txt (''Instrumentation error:'' @ [CHR 0x0A]), Err (Reason r)])] \<and>
              in_flight st' = [] \<and>
              (\<forall>evs'. begun (instr_run example_instr_env st' evs') = begun ?st \<and>
                      in_flight (instr_run example_instr_env st' evs') = [] \<and>
                      disposition (sequence (instr_run example_instr_env st' evs')) = Reject r)"
    unfolding Let_def by blast
  then have "instr_raised (instr_step example_instr_env ?st (InstrumentRejects 1 (JStr ''bad''))) =
       instr_raised ?st @ [FluidFail (Reason (JStr ''bad''))]"
    and "begun (instr_run example_instr_env (instr_step example_instr_env ?st (InstrumentRejects 1 (JStr ''bad'')))
            [InstrumentResolves 2 Null]) = begun ?st"
    and "disposition (sequence (instr_run example_instr_env
            (instr_step example_instr_env ?st (InstrumentRejects 1 (JStr ''bad''))) [InstrumentResolves 2 Null])) =
          Reject (JStr ''bad'')"
    unfolding Let_def by blast+
  with example_pass_second example_pass_returned show ?thesis
    unfolding run by simp
qed

text \<open>
  The handlers that the holder of the promise queued before the failure are not called:
  \<^verbatim>\<open>fluid.fail\<close> raises in the handler before them.
\<close>

lemma instrumentation_error_skips_consumers:
  assumes "instr_inv srcs st" "in_flight st = [(i, src, dst)]"
  shows "consumed (instr_step env st (InstrumentRejects i r)) = consumed st"
  using rejects_step[OF assms] by blast

section \<open>Proofs: the lifecycle entry point\<close>

lemma handle_inv:
  "handleTestemLifecycleEvent ev log0 calls0 = Inr st \<Longrightarrow> lifecycle_inv calls0 st"
  by (cases "fireTransformEvent ev Undefined"; cases "projr (fireTransformEvent ev Undefined)")
     (auto simp add: handleTestemLifecycleEvent_def fluid_promise_def promise_then_def
        lifecycle_inv_def settled_def)

lemma handle_settled:
  "handleTestemLifecycleEvent ev log0 calls0 = Inr st \<Longrightarrow>
     settled (chain st) = (fireTransformEvent ev Undefined \<noteq> Inr Pending)"
  by (cases "fireTransformEvent ev Undefined"; cases "projr (fireTransformEvent ev Undefined)")
     (auto simp add: handleTestemLifecycleEvent_def fluid_promise_def promise_then_def settled_def)

lemma handle_thrown:
  "handleTestemLifecycleEvent ev log0 calls0 = Inl e \<longleftrightarrow> fireTransformEvent ev Undefined = Inl e"
  by (auto simp add: handleTestemLifecycleEvent_def Let_def split: sum.splits prod.splits)

lemma chain_step_inv:
  "lifecycle_inv calls0 st \<Longrightarrow> lifecycle_inv calls0 (chain_step st ev) \<and> settled (chain (chain_step st ev))"
  by (cases ev; cases "disposition (chain st)")
     (simp_all add: chain_step_def promise_resolve_def promise_reject_def lifecycle_inv_def settled_def)

lemma chain_run_inv:
  "lifecycle_inv calls0 st \<Longrightarrow> lifecycle_inv calls0 (chain_run st evs) \<and>
     (settled (chain (chain_run st evs)) = (settled (chain st) \<or> evs \<noteq> []))"
proof (induction evs arbitrary: st)
  case Nil
  then show ?case by (simp add: chain_run_def)
next
  case (Cons ev evs)
  from chain_step_inv[OF Cons.prems, of ev]
  have i: "lifecycle_inv calls0 (chain_step st ev)" and s: "settled (chain (chain_step st ev))"
    by simp_all
  from Cons.IH[OF i] s show ?case by (simp add: chain_run_def)
qed

text \<open>
  When \<^verbatim>\<open>fireTransformEvent\<close> returns the chain, whatever its disposition then and whatever
  attempts to resolve or reject it follow, the Testem callback has been called exactly
  once as soon as the chain is settled, resolved or rejected alike, and not at all while
  it is pending.
\<close>

lemma callback_once_for_a_returned_chain:
  assumes "handleTestemLifecycleEvent componentEvent log0 calls0 = Inr st0"
  shows "testemCallback_calls (chain_run st0 evs) =
           calls0 + (if settled (chain (chain_run st0 evs)) then 1 else 0) \<and>
         settled (chain (chain_run st0 evs)) =
           (fireTransformEvent componentEvent Undefined \<noteq> Inr Pending \<or> evs \<noteq> [])"
  using chain_run_inv[OF handle_inv[OF assms], of evs] handle_settled[OF assms]
  by (auto simp add: lifecycle_inv_def split: if_splits)

text \<open>A chain whose listener throws when it is called: no promise comes back.\<close>

lemma fireTransformEvent_throws:
  "fireTransformEvent (map Returned vs @ Threw e # rest) payload = Inl e"
  by (induction vs arbitrary: payload) simp_all

lemma onlyTestemContent_undefined:
  "testemDir env ident = None \<Longrightarrow>
     onlyTestemContent env ident = [\<lparr> def_name = ''testem'', def_path = None, isTestemContent = True \<rparr>]"
  by (simp add: onlyTestemContent_def)

lemma cleanup_unresolved_path_throws:
  "module_resolvePath env (def_path d) = Inl e \<Longrightarrow> cleanup env stage (d # rest) st = (Thrown e, st)"
  by (simp add: cleanup_def cleanupDir_def)

text \<open>
  Claim C1. The claim says that no failure of a listener prevents the call of the Testem
  callback or is thrown past it, and the function's own description says that the callback
  is always called, whatever the result. Take a component whose option \<^verbatim>\<open>testemDir\<close> is \<^verbatim>\<open>undefined\<close> because the base
  path did not resolve when the option was built. Testem calls \<^verbatim>\<open>on_start\<close>; the first
  listener of \<^verbatim>\<open>onTestemStart\<close> is the cleanup, whose \<^verbatim>\<open>fluid.module.resolvePath\<close> of an
  \<^verbatim>\<open>undefined\<close> path throws outside every \<^verbatim>\<open>try\<close> block; the exception leaves
  \<^verbatim>\<open>fireTransformEvent\<close> and \<^verbatim>\<open>handleTestemLifecycleEvent\<close>, no promise exists for the handlers
  to be queued on, and the callback is not called.
\<close>

theorem handleTestemLifecycleEvent_throws_past_callback:
  "testemDir (dir_env.truncate unresolvable_env) (component_id example_component) = None \<and>
   handleTestemLifecycleEvent
     (onTestemStart unresolvable_env example_component [] example_files) [] 0 = Inl TypeError"
proof -
  have d: "testemDir (dir_env.truncate unresolvable_env) (component_id example_component) = None"
    by (simp add: testemDir_def generateUniqueDirName_def unresolvable_env_def example_cleanup_env_def
        dir_env.defs)
  have m: "module_resolvePath unresolvable_env None = Inl TypeError"
    by (simp add: unresolvable_env_def example_cleanup_env_def)
  have c: "fst (cleanup unresolvable_env ''Initial''
                  (onlyTestemContent (dir_env.truncate unresolvable_env) (component_id example_component))
                  example_files) = Thrown TypeError"
    unfolding onlyTestemContent_undefined[OF d]
    by (subst cleanup_unresolved_path_throws[where e = TypeError]) (simp_all add: m)
  show ?thesis
    by (simp add: d handleTestemLifecycleEvent_def onTestemStart_def c)
qed

text \<open>
  The same chain when the directory option is there: the cleanup resolves, the fixtures
  are constructed, the chain waits for \<^verbatim>\<open>onFixturesConstructed\<close>, and the callback is called
  once the wait is over.
\<close>

lemma onTestemStart_pending:
  "fireTransformEvent (onTestemStart willing_env example_component [] example_files) Undefined = Inr Pending"
proof -
  have d: "onlyTestemContent (dir_env.truncate willing_env) (component_id example_component) =
      [\<lparr> def_name = ''testem'', def_path = Some ''/tmp/user_data_dir-abc'', isTestemContent = True \<rparr>]"
    by (simp add: onlyTestemContent_def testemDir_def generateUniqueDirName_def willing_env_def
        example_cleanup_env_def example_component_def dir_env.defs)
  have c: "fst (cleanup willing_env ''Initial''
                  (onlyTestemContent (dir_env.truncate willing_env) (component_id example_component))
                  example_files) = Resolved"
    unfolding d
    by (simp add: cleanup_def cleanupDir_def cleanupTestemContent_def generateRimrafWrapper_def
        willing_env_def example_cleanup_env_def example_files_def testemRegexp_Temp)
  show ?thesis
    by (simp add: onTestemStart_def c wrapSecondaryEvent_start)
qed

lemma onTestemStart_waits:
  "\<exists>st0. handleTestemLifecycleEvent
           (onTestemStart willing_env example_component [] example_files) [] 0 = Inr st0 \<and>
         testemCallback_calls st0 = 0 \<and>
         testemCallback_calls (chain_run st0 [ChainResolves Undefined]) = 1"
proof -
  obtain st0 where h: "handleTestemLifecycleEvent
           (onTestemStart willing_env example_component [] example_files) [] 0 = Inr st0"
    by (simp add: handleTestemLifecycleEvent_def onTestemStart_pending promise_then_def fluid_promise_def)
  from callback_once_for_a_returned_chain[OF h, of "[]"]
    callback_once_for_a_returned_chain[OF h, of "[ChainResolves Undefined]"]
  have "testemCallback_calls st0 = 0 \<and> testemCallback_calls (chain_run st0 [ChainResolves Undefined]) = 1"
    by (simp add: onTestemStart_pending chain_run_def)
  with h show ?thesis by blast
qed

end
